theory Spec2Isabelle
  imports
    Main
    "HOL-Library.Sublist"
    "HOL-Library.Char_ord"
    "HOL-Library.List_Lexorder"
    "HOL-Library.Multiset"
begin

section \<open>Python values\<close>

text \<open>
  The scripts \<^verbatim>\<open>backup.py\<close> and \<^verbatim>\<open>backup_all.py\<close> work on two kinds of parsed documents:
  the compose file loaded by \<^verbatim>\<open>yaml.safe_load\<close> and the listing printed by
  \<^verbatim>\<open>rclone lsjson\<close>, loaded by \<^verbatim>\<open>json.loads\<close>. Both give Python values built from
  \<^verbatim>\<open>None\<close>, booleans, integers, strings, lists and dictionaries. A dictionary is an
  association list in insertion order, looked up with \<open>map_of\<close> (the first binding of a key
  is the one the dictionary holds). Floats, timestamps, binary scalars and YAML sets are
  left out of the model. Strings are lists of \<open>char\<close>, compared lexicographically by
  character code as Python compares code points.

  Every exception the code can raise is a value: a function that can raise returns
  \<open>py_error + 'a\<close>, with \<open>Inl\<close> for the exception. An exception is known by its class;
  \<open>CompletedWithFailures\<close> is the \<^verbatim>\<open>RuntimeError\<close> of line 47 of \<^verbatim>\<open>backup_all.py\<close>, with the
  pairs of project name and exception that its message lists.
\<close>

datatype py_error =
    FileNotFoundError | FileExistsError | OSError | RuntimeError
  | TypeError | AttributeError | ValueError | KeyError
  | CompletedWithFailures "(string \<times> py_error) list"

datatype pyval =
    PNone
  | PBool bool
  | PInt int
  | PStr string
  | PList "pyval list"
  | PDict "(pyval \<times> pyval) list"

text \<open>Truth value of a Python object, as used by \<^verbatim>\<open>not x\<close>, \<^verbatim>\<open>x or y\<close> and \<^verbatim>\<open>if x\<close>.\<close>

fun truthy :: "pyval \<Rightarrow> bool" where
  "truthy PNone = False"
| "truthy (PBool b) = b"
| "truthy (PInt i) = (i \<noteq> 0)"
| "truthy (PStr s) = (s \<noteq> [])"
| "truthy (PList xs) = (xs \<noteq> [])"
| "truthy (PDict kvs) = (kvs \<noteq> [])"

text \<open>\<^verbatim>\<open>(x or {})\<close>\<close>

definition or_empty_dict :: "pyval \<Rightarrow> pyval" where
  "or_empty_dict x = (if truthy x then x else PDict [])"

text \<open>\<^verbatim>\<open>d.get(k, default)\<close> with a string key: only dictionaries have \<^verbatim>\<open>get\<close>.\<close>

fun py_get :: "pyval \<Rightarrow> string \<Rightarrow> pyval \<Rightarrow> py_error + pyval" where
  "py_get (PDict kvs) k dflt =
     Inr (case map_of kvs (PStr k) of Some v \<Rightarrow> v | None \<Rightarrow> dflt)"
| "py_get _ k dflt = Inl AttributeError"

text \<open>\<^verbatim>\<open>d.items()\<close>\<close>

fun py_items :: "pyval \<Rightarrow> py_error + (pyval \<times> pyval) list" where
  "py_items (PDict kvs) = Inr kvs"
| "py_items _ = Inl AttributeError"

text \<open>
  \<^verbatim>\<open>for x in v\<close>: a list gives its elements, a string its characters (each a string of
  length one), a dictionary its keys; nothing else is iterable.
\<close>

fun py_iter :: "pyval \<Rightarrow> py_error + pyval list" where
  "py_iter (PList xs) = Inr xs"
| "py_iter (PStr s) = Inr (map (\<lambda>c. PStr [c]) s)"
| "py_iter (PDict kvs) = Inr (map fst kvs)"
| "py_iter _ = Inl TypeError"

text \<open>
  Equality of hashable values, as a \<^verbatim>\<open>set\<close> uses it: \<^verbatim>\<open>True == 1\<close> and \<^verbatim>\<open>False == 0\<close>.
\<close>

fun py_eq :: "pyval \<Rightarrow> pyval \<Rightarrow> bool" where
  "py_eq (PBool b) (PInt i) = (i = (if b then 1 else 0))"
| "py_eq (PInt i) (PBool b) = (i = (if b then 1 else 0))"
| "py_eq x y = (x = y)"

fun hashable :: "pyval \<Rightarrow> bool" where
  "hashable (PList xs) = False"
| "hashable (PDict kvs) = False"
| "hashable _ = True"

text \<open>
  \<^verbatim>\<open>s.add(x)\<close> on a set kept as the list of its elements, pairwise different under
  \<open>py_eq\<close>: an unhashable value raises, an element already there is kept.
\<close>

definition set_add :: "pyval \<Rightarrow> pyval list \<Rightarrow> py_error + pyval list" where
  "set_add x s =
     (if \<not> hashable x then Inl TypeError
      else Inr (if \<exists>y \<in> set s. py_eq y x then s else s @ [x]))"

fun is_str :: "pyval \<Rightarrow> bool" where
  "is_str (PStr s) = True"
| "is_str _ = False"

fun str_of :: "pyval \<Rightarrow> string" where
  "str_of (PStr s) = s"
| "str_of _ = []"

fun is_num :: "pyval \<Rightarrow> bool" where
  "is_num (PBool b) = True"
| "is_num (PInt i) = True"
| "is_num _ = False"

fun num_of :: "pyval \<Rightarrow> int" where
  "num_of (PBool b) = (if b then 1 else 0)"
| "num_of (PInt i) = i"
| "num_of _ = 0"

text \<open>
  \<^verbatim>\<open>sorted(s)\<close> on the elements of a set. Strings compare with strings and numbers with
  numbers; every other comparison raises \<^verbatim>\<open>TypeError\<close>, and a sort of two or more elements
  compares each element with another one. The elements of a set are pairwise different, so
  the sorted list does not depend on the order in which the set hands them out.
\<close>

definition py_sorted :: "pyval list \<Rightarrow> py_error + pyval list" where
  "py_sorted xs =
     (if length xs \<le> 1 then Inr xs
      else if list_all is_str xs then Inr (sort_key str_of xs)
      else if list_all is_num xs then Inr (sort_key num_of xs)
      else Inl TypeError)"

section \<open>Volume discovery: \<^verbatim>\<open>extract_named_volumes\<close>\<close>

text \<open>
  Lines 65 to 70: the source of one entry of a service's \<^verbatim>\<open>volumes\<close>. A string entry gives
  \<^verbatim>\<open>v.split(":", 1)[0]\<close>, a dictionary entry \<^verbatim>\<open>v.get("source")\<close>, which is \<^verbatim>\<open>None\<close> when
  the key is missing; \<open>None\<close> here is the \<^verbatim>\<open>else: continue\<close> branch.
\<close>

fun mount_source :: "pyval \<Rightarrow> pyval option" where
  "mount_source (PStr s) = Some (PStr (takeWhile (\<lambda>c. c \<noteq> CHR '':'') s))"
| "mount_source (PDict kvs) =
     Some (case map_of kvs (PStr ''source'') of Some k \<Rightarrow> k | None \<Rightarrow> PNone)"
| "mount_source _ = None"

text \<open>\<^verbatim>\<open>"/" in volkey\<close>\<close>

fun contains_slash :: "pyval \<Rightarrow> py_error + bool" where
  "contains_slash (PStr s) = Inr (CHR ''/'' \<in> set s)"
| "contains_slash (PList xs) = Inr (PStr ''/'' \<in> set xs)"
| "contains_slash (PDict kvs) = Inr (PStr ''/'' \<in> fst ` set kvs)"
| "contains_slash _ = Inl TypeError"

text \<open>\<^verbatim>\<open>volkey.startswith(p)\<close>\<close>

fun py_startswith :: "pyval \<Rightarrow> string \<Rightarrow> py_error + bool" where
  "py_startswith (PStr s) p = Inr (prefix p s)"
| "py_startswith _ p = Inl AttributeError"

text \<open>Line 76, with the short-circuit evaluation of \<^verbatim>\<open>or\<close>.\<close>

definition is_host_path :: "pyval \<Rightarrow> py_error + bool" where
  "is_host_path volkey =
     (case contains_slash volkey of
        Inl e \<Rightarrow> Inl e
      | Inr True \<Rightarrow> Inr True
      | Inr False \<Rightarrow>
          (case py_startswith volkey ''.'' of
             Inl e \<Rightarrow> Inl e
           | Inr True \<Rightarrow> Inr True
           | Inr False \<Rightarrow> py_startswith volkey ''~''))"

text \<open>
  \<^verbatim>\<open>volkey in top_volumes\<close> for a string \<^verbatim>\<open>volkey\<close>: a key test on a dictionary, an element
  test on a list, a substring test on a string; \<^verbatim>\<open>None\<close>, booleans and integers raise.
\<close>

fun key_in :: "string \<Rightarrow> pyval \<Rightarrow> py_error + bool" where
  "key_in k (PDict kvs) = Inr (map_of kvs (PStr k) \<noteq> None)"
| "key_in k (PList xs) = Inr (PStr k \<in> set xs)"
| "key_in k (PStr s) = Inr (sublist k s)"
| "key_in k _ = Inl TypeError"

text \<open>\<^verbatim>\<open>top_volumes[volkey]\<close> for a string \<^verbatim>\<open>volkey\<close>\<close>

fun subscript :: "pyval \<Rightarrow> string \<Rightarrow> py_error + pyval" where
  "subscript (PDict kvs) k =
     (case map_of kvs (PStr k) of Some v \<Rightarrow> Inr v | None \<Rightarrow> Inl KeyError)"
| "subscript _ k = Inl TypeError"

text \<open>
  Lines 80 to 89: the name that is added for the key \<^verbatim>\<open>volkey\<close>; the explicit \<^verbatim>\<open>name\<close> of
  its top-level definition when that definition is a dictionary with this field, the key
  otherwise.
\<close>

definition resolve_volume :: "pyval \<Rightarrow> string \<Rightarrow> py_error + pyval" where
  "resolve_volume top_volumes volkey =
     (case key_in volkey top_volumes of
        Inl e \<Rightarrow> Inl e
      | Inr False \<Rightarrow> Inr (PStr volkey)
      | Inr True \<Rightarrow>
          (case subscript top_volumes volkey of
             Inl e \<Rightarrow> Inl e
           | Inr vol_def \<Rightarrow>
               (case vol_def of
                  PDict d \<Rightarrow>
                    (case map_of d (PStr ''name'') of
                       Some n \<Rightarrow> Inr n
                     | None \<Rightarrow> Inr (PStr volkey))
                | _ \<Rightarrow> Inr (PStr volkey))))"

text \<open>
  Lines 63 to 89, the body of the inner loop on one entry \<^verbatim>\<open>v\<close>, with the set
  \<^verbatim>\<open>named_volumes\<close> passed through. A \<^verbatim>\<open>volkey\<close> that is not a string cannot get past line
  76: the membership test or \<^verbatim>\<open>startswith\<close> raises, or the test holds and the entry is
  skipped.
\<close>

definition visit_mount :: "pyval \<Rightarrow> pyval \<Rightarrow> pyval list \<Rightarrow> py_error + pyval list" where
  "visit_mount top_volumes v named_volumes =
     (case mount_source v of
        None \<Rightarrow> Inr named_volumes
      | Some volkey \<Rightarrow>
          if \<not> truthy volkey then Inr named_volumes
          else
            (case is_host_path volkey of
               Inl e \<Rightarrow> Inl e
             | Inr True \<Rightarrow> Inr named_volumes
             | Inr False \<Rightarrow>
                 (case volkey of
                    PStr k \<Rightarrow>
                      (case resolve_volume top_volumes k of
                         Inl e \<Rightarrow> Inl e
                       | Inr n \<Rightarrow> set_add n named_volumes)
                  | _ \<Rightarrow> Inl AttributeError)))"

text \<open>Line 62: \<^verbatim>\<open>for v in svc_vols\<close>\<close>

fun service_volumes_loop ::
  "pyval \<Rightarrow> pyval list \<Rightarrow> pyval list \<Rightarrow> py_error + pyval list" where
  "service_volumes_loop top_volumes [] named_volumes = Inr named_volumes"
| "service_volumes_loop top_volumes (v # vs) named_volumes =
     (case visit_mount top_volumes v named_volumes of
        Inl e \<Rightarrow> Inl e
      | Inr named' \<Rightarrow> service_volumes_loop top_volumes vs named')"

text \<open>Lines 61 and 62 for one service \<^verbatim>\<open>svc\<close>\<close>

definition visit_service :: "pyval \<Rightarrow> pyval \<Rightarrow> pyval list \<Rightarrow> py_error + pyval list" where
  "visit_service top_volumes svc named_volumes =
     (case py_get (or_empty_dict svc) ''volumes'' (PList []) of
        Inl e \<Rightarrow> Inl e
      | Inr svc_vols \<Rightarrow>
          (case py_iter svc_vols of
             Inl e \<Rightarrow> Inl e
           | Inr vs \<Rightarrow> service_volumes_loop top_volumes vs named_volumes))"

text \<open>Line 60: \<^verbatim>\<open>for _, svc in services.items()\<close>\<close>

fun services_loop ::
  "pyval \<Rightarrow> pyval list \<Rightarrow> pyval list \<Rightarrow> py_error + pyval list" where
  "services_loop top_volumes [] named_volumes = Inr named_volumes"
| "services_loop top_volumes (svc # svcs) named_volumes =
     (case visit_service top_volumes svc named_volumes of
        Inl e \<Rightarrow> Inl e
      | Inr named' \<Rightarrow> services_loop top_volumes svcs named')"

text \<open>
  \<^verbatim>\<open>extract_named_volumes\<close> from line 56 on, applied to the document \<^verbatim>\<open>data\<close> that
  \<^verbatim>\<open>yaml.safe_load\<close> returned (opening and parsing the file is an input of the workflow
  below).
\<close>

definition extract_named_volumes :: "pyval \<Rightarrow> py_error + pyval list" where
  "extract_named_volumes data =
     (case py_get (or_empty_dict data) ''services'' (PDict []) of
        Inl e \<Rightarrow> Inl e
      | Inr services \<Rightarrow>
          (case py_get (or_empty_dict data) ''volumes'' (PDict []) of
             Inl e \<Rightarrow> Inl e
           | Inr top_volumes \<Rightarrow>
               (case py_items services of
                  Inl e \<Rightarrow> Inl e
                | Inr items \<Rightarrow>
                    (case services_loop top_volumes (map snd items) [] of
                       Inl e \<Rightarrow> Inl e
                     | Inr named_volumes \<Rightarrow> py_sorted named_volumes))))"


subsection \<open>The descriptor as the specification reads it\<close>

text \<open>
  The specification describes volume discovery on a descriptor made of a mapping of
  services and a mapping of top-level volume definitions. The definitions of this subsection
  follow its words; they are compared with \<open>extract_named_volumes\<close> below.

  A mount is skipped when it has no source (an entry that is neither a string nor a mapping,
  a missing or empty \<^verbatim>\<open>source\<close>) or when its source looks like a host path.
\<close>

definition host_path_like :: "string \<Rightarrow> bool" where
  "host_path_like s = (CHR ''/'' \<in> set s \<or> prefix ''.'' s \<or> prefix ''~'' s)"

definition skipped_mount :: "pyval \<Rightarrow> bool" where
  "skipped_mount v =
     (case mount_source v of
        None \<Rightarrow> True
      | Some k \<Rightarrow> \<not> truthy k \<or> (case k of PStr s \<Rightarrow> host_path_like s | _ \<Rightarrow> False))"

text \<open>The key of a mount that is not skipped.\<close>

definition surviving_key :: "pyval \<Rightarrow> string option" where
  "surviving_key v =
     (case mount_source v of
        Some (PStr s) \<Rightarrow> if s \<noteq> [] \<and> \<not> host_path_like s then Some s else None
      | _ \<Rightarrow> None)"

definition descriptor_services :: "pyval \<Rightarrow> pyval list" where
  "descriptor_services data =
     (case py_get (or_empty_dict data) ''services'' (PDict []) of
        Inr (PDict svcs) \<Rightarrow> map snd svcs
      | _ \<Rightarrow> [])"

definition descriptor_volumes :: "pyval \<Rightarrow> (pyval \<times> pyval) list" where
  "descriptor_volumes data =
     (case py_get (or_empty_dict data) ''volumes'' (PDict []) of
        Inr (PDict t) \<Rightarrow> t
      | _ \<Rightarrow> [])"

definition service_mounts :: "pyval \<Rightarrow> pyval list" where
  "service_mounts svc =
     (case py_get (or_empty_dict svc) ''volumes'' (PList []) of
        Inr (PList vs) \<Rightarrow> vs
      | _ \<Rightarrow> [])"

text \<open>The explicit external name that the top-level definition of a key carries, if any.\<close>

definition external_name :: "(pyval \<times> pyval) list \<Rightarrow> string \<Rightarrow> pyval option" where
  "external_name t k =
     (case map_of t (PStr k) of
        Some (PDict vd) \<Rightarrow> map_of vd (PStr ''name'')
      | _ \<Rightarrow> None)"

definition resolved_name :: "(pyval \<times> pyval) list \<Rightarrow> string \<Rightarrow> string" where
  "resolved_name t k = (case external_name t k of Some (PStr n) \<Rightarrow> n | _ \<Rightarrow> k)"

definition surviving_keys :: "pyval \<Rightarrow> string list" where
  "surviving_keys data =
     List.map_filter surviving_key (concat (map service_mounts (descriptor_services data)))"

definition resolved_names :: "pyval \<Rightarrow> string set" where
  "resolved_names data = resolved_name (descriptor_volumes data) ` set (surviving_keys data)"







text \<open>
  The scenario of the specification: project \<^verbatim>\<open>shop\<close> with services \<^verbatim>\<open>web\<close> and \<^verbatim>\<open>db\<close>,
  a bind mount \<^verbatim>\<open>./conf\<close> and an external name for \<^verbatim>\<open>dbdata\<close>.
\<close>

definition shop_descriptor :: pyval where
  "shop_descriptor =
     PDict [
       (PStr ''services'', PDict [
          (PStr ''web'', PDict [(PStr ''volumes'', PList [PStr ''data:/var/data''])]),
          (PStr ''db'', PDict [(PStr ''volumes'',
             PList [PStr ''dbdata:/var/lib/db'', PStr ''./conf:/etc/conf''])])]),
       (PStr ''volumes'', PDict [
          (PStr ''data'', PNone),
          (PStr ''dbdata'', PDict [(PStr ''name'', PStr ''shop_dbdata'')])])]"

section \<open>The environment of a run\<close>

text \<open>
  A path is the list of its components from the root; the paths of the model are absolute
  and resolved. The file system is the list of the paths that exist, each a file or a
  directory. A run changes it and leaves a trace: the list, in order, of the operations it
  performed on the file system and of the external commands it ran, each with its result
  (\<open>None\<close> for success, the exception otherwise).
\<close>

type_synonym path = "string list"

datatype kind = File | Dir

type_synonym filesystem = "(path \<times> kind) list"

datatype compose_cmd = DockerCompose | DockerComposeStandalone

text \<open>
  \<open>MakeArchive zip root paths\<close> is \<^verbatim>\<open>shutil.make_archive\<close> writing \<open>zip\<close> from the tree under
  \<open>root\<close>, \<open>paths\<close> being everything under \<open>root\<close> at that moment, which is what the archive
  holds. \<open>RcloneDeletefile dir rel\<close> deletes the remote file whose name is \<open>dir\<close> followed
  by \<open>rel\<close>.
\<close>

datatype action =
    MakeArchive path path "path list"
  | Mkdir path
  | Move path path
  | ComposeDown compose_cmd path
  | ComposeUp compose_cmd path
  | ExportVolume string path string
  | RcloneCopy path string
  | Rmtree path
  | Unlink path
  | RcloneLsjson string
  | RcloneDeletefile string pyval

type_synonym event = "action \<times> py_error option"

record world =
  fs :: filesystem
  trace :: "event list"

text \<open>
  \<^verbatim>\<open>datetime\<close> values: naive ones, counted in microseconds from \<^verbatim>\<open>datetime.min\<close>, and aware
  ones, counted in microseconds on the UTC time line. Python orders two naive values and
  two aware values; comparing a naive value with an aware one raises \<^verbatim>\<open>TypeError\<close>.
\<close>

datatype datetime = Naive nat | Aware int

definition datetime_min :: datetime where
  "datetime_min = Naive 0"

fun is_naive :: "datetime \<Rightarrow> bool" where
  "is_naive (Naive n) = True"
| "is_naive (Aware i) = False"

fun instant :: "datetime \<Rightarrow> int" where
  "instant (Naive n) = int n"
| "instant (Aware i) = i"

text \<open>
  The model leaves out what the scripts print. An external command changes the local files
  only by what it is run for: an export writes its archive, the compose commands and
  \<^verbatim>\<open>rclone\<close> write nothing locally.

  What a run takes from outside. The number given to \<open>now\<close>, \<open>cmd_result\<close> and
  \<open>lsjson_result\<close> is the length of the trace at the call, so that the same command can
  succeed once and fail later.
  \<^item> \<open>now\<close>: \<^verbatim>\<open>datetime.datetime.now().strftime("%Y%m%d-%H%M%S")\<close>;
  \<^item> \<open>cmd_result\<close>: whether an operation or an external command fails, and with which
    exception (\<^verbatim>\<open>run_cmd\<close> raises \<^verbatim>\<open>RuntimeError\<close> on a non-zero exit code);
  \<^item> \<open>read_yaml\<close>: opening the compose file and \<^verbatim>\<open>yaml.safe_load\<close>;
  \<^item> \<open>compose_plugin\<close>, \<open>compose_standalone\<close>: whether \<^verbatim>\<open>docker compose version\<close> and
    \<^verbatim>\<open>docker-compose version\<close> exit with code 0;
  \<^item> \<open>lsjson_result\<close>: \<^verbatim>\<open>rclone lsjson\<close> followed by \<^verbatim>\<open>json.loads\<close>, with the exception of
    lines 220 and 225 when the command or the parsing fails;
  \<^item> \<open>fromisoformat\<close>: \<^verbatim>\<open>datetime.datetime.fromisoformat\<close>, \<open>None\<close> for \<^verbatim>\<open>ValueError\<close>;
  \<^item> \<open>rmtree_removed\<close>: the paths that a failing \<^verbatim>\<open>shutil.rmtree\<close> has deleted before it
    raises.
\<close>

record env =
  now :: "nat \<Rightarrow> string"
  cmd_result :: "nat \<Rightarrow> action \<Rightarrow> py_error option"
  read_yaml :: "path \<Rightarrow> py_error + pyval"
  compose_plugin :: bool
  compose_standalone :: bool
  lsjson_result :: "nat \<Rightarrow> string \<Rightarrow> py_error + pyval"
  fromisoformat :: "string \<Rightarrow> datetime option"
  rmtree_removed :: "nat \<Rightarrow> path \<Rightarrow> path list"

text \<open>How a call ends: it returns, it raises, or \<^verbatim>\<open>sys.exit\<close> ends the process.\<close>

datatype 'a outcome = Returned 'a | Raised py_error | SysExit int

subsection \<open>Files and commands\<close>

definition path_exists :: "filesystem \<Rightarrow> path \<Rightarrow> bool" where
  "path_exists f p = (map_of f p \<noteq> None)"

definition is_dir :: "filesystem \<Rightarrow> path \<Rightarrow> bool" where
  "is_dir f p = (map_of f p = Some Dir)"

definition is_file :: "filesystem \<Rightarrow> path \<Rightarrow> bool" where
  "is_file f p = (map_of f p = Some File)"

definition fs_remove :: "path \<Rightarrow> filesystem \<Rightarrow> filesystem" where
  "fs_remove p f = filter (\<lambda>(q, k). q \<noteq> p) f"

definition fs_add :: "path \<Rightarrow> kind \<Rightarrow> filesystem \<Rightarrow> filesystem" where
  "fs_add p k f = (p, k) # fs_remove p f"

definition fs_rmtree :: "path \<Rightarrow> filesystem \<Rightarrow> filesystem" where
  "fs_rmtree d f = filter (\<lambda>(q, k). \<not> prefix d q) f"

text \<open>
  What an interrupted removal of the tree \<open>d\<close> leaves: the paths of \<open>gone\<close> that lie below \<open>d\<close>
  are deleted, \<open>d\<close> itself, which is removed last, is still there.
\<close>

definition fs_rmtree_partial :: "path \<Rightarrow> path list \<Rightarrow> filesystem \<Rightarrow> filesystem" where
  "fs_rmtree_partial d gone f = filter (\<lambda>(q, k). \<not> (prefix d q \<and> q \<noteq> d \<and> q \<in> set gone)) f"

definition fs_under :: "path \<Rightarrow> filesystem \<Rightarrow> path list" where
  "fs_under d f = filter (prefix d) (map fst f)"

text \<open>Renaming \<open>src\<close> to \<open>dst\<close> takes along everything under \<open>src\<close> and replaces \<open>dst\<close>.\<close>

definition fs_move :: "path \<Rightarrow> path \<Rightarrow> filesystem \<Rightarrow> filesystem" where
  "fs_move src dst f =
     map (\<lambda>(q, k). (dst @ drop (length src) q, k)) (filter (\<lambda>(q, k). prefix src q) f) @
     filter (\<lambda>(q, k). \<not> prefix src q \<and> \<not> prefix dst q) f"

definition path_name :: "path \<Rightarrow> string" where
  "path_name p = (if p = [] then [] else last p)"

definition path_parent :: "path \<Rightarrow> path" where
  "path_parent p = butlast p"

text \<open>
  \<^verbatim>\<open>PurePath.suffix\<close> and \<^verbatim>\<open>with_suffix\<close> on the last component: the suffix starts at the
  last dot of the name, unless that dot is the first or the last character (\<^verbatim>\<open>pathlib\<close> up
  to Python 3.13; the names built here end in the digits of the time stamp, and later
  versions agree on them unless the name starts with two dots). \<^verbatim>\<open>with_suffix\<close> replaces
  the suffix when there is one and appends otherwise.
\<close>

definition rfind_dot :: "string \<Rightarrow> nat option" where
  "rfind_dot name =
     (case filter (\<lambda>i. name ! i = CHR ''.'') (rev [0 ..< length name]) of
        [] \<Rightarrow> None
      | i # _ \<Rightarrow> Some i)"

definition name_suffix :: "string \<Rightarrow> string" where
  "name_suffix name =
     (case rfind_dot name of
        None \<Rightarrow> []
      | Some i \<Rightarrow> if 0 < i \<and> i < length name - 1 then drop i name else [])"

definition with_suffix :: "string \<Rightarrow> string \<Rightarrow> string" where
  "with_suffix name sfx = take (length name - length (name_suffix name)) name @ sfx"

text \<open>
  An operation on the file system or an external command: its result is recorded, and its
  effect on the file system takes place when it succeeds. \<open>refuse\<close> is an operation that
  fails because of what the file system holds.
\<close>

definition perform ::
  "env \<Rightarrow> action \<Rightarrow> (filesystem \<Rightarrow> filesystem) \<Rightarrow> world \<Rightarrow> py_error option \<times> world" where
  "perform env a effect w =
     (let r = cmd_result env (length (trace w)) a
      in (r, w\<lparr>fs := (if r = None then effect (fs w) else fs w),
                trace := trace w @ [(a, r)]\<rparr>))"

definition refuse :: "action \<Rightarrow> py_error \<Rightarrow> world \<Rightarrow> py_error option \<times> world" where
  "refuse a e w = (Some e, w\<lparr>trace := trace w @ [(a, Some e)]\<rparr>)"

text \<open>\<^verbatim>\<open>run_cmd\<close> on a command that leaves the local files alone.\<close>

definition run_cmd :: "env \<Rightarrow> action \<Rightarrow> world \<Rightarrow> py_error option \<times> world" where
  "run_cmd env a w = perform env a (\<lambda>f. f) w"

section \<open>Retention: \<^verbatim>\<open>rotate_project_backups\<close>\<close>

text \<open>
  Line 230. \<^verbatim>\<open>str(x)\<close> of a value that is not a string ends in a letter, a digit, a bracket
  or a brace, never in \<^verbatim>\<open>.zip\<close>.
\<close>

fun str_endswith :: "pyval \<Rightarrow> string \<Rightarrow> bool" where
  "str_endswith (PStr s) sfx = suffix sfx s"
| "str_endswith _ sfx = False"

definition is_backup :: "pyval \<Rightarrow> py_error + bool" where
  "is_backup entry =
     (case py_get entry ''IsDir'' PNone of
        Inl e \<Rightarrow> Inl e
      | Inr d \<Rightarrow>
          if truthy d then Inr False
          else (case py_get entry ''Path'' (PStr []) of
                  Inl e \<Rightarrow> Inl e
                | Inr p \<Rightarrow> Inr (str_endswith p ''.zip'')))"

text \<open>Lines 228 to 231\<close>

fun filter_backups :: "pyval list \<Rightarrow> py_error + pyval list" where
  "filter_backups [] = Inr []"
| "filter_backups (entry # entries) =
     (case is_backup entry of
        Inl e \<Rightarrow> Inl e
      | Inr b \<Rightarrow>
          (case filter_backups entries of
             Inl e \<Rightarrow> Inl e
           | Inr backups \<Rightarrow> Inr (if b then entry # backups else backups)))"

text \<open>\<^verbatim>\<open>mod_time.replace("Z", "+00:00")\<close>\<close>

definition replace_Z :: "string \<Rightarrow> string" where
  "replace_Z s = concat (map (\<lambda>c. if c = CHR ''Z'' then ''+00:00'' else [c]) s)"

text \<open>Lines 233 to 240: \<^verbatim>\<open>_parse_time\<close>\<close>

definition parse_time :: "(string \<Rightarrow> datetime option) \<Rightarrow> pyval \<Rightarrow> py_error + datetime" where
  "parse_time parse mod_time =
     (if \<not> truthy mod_time then Inr datetime_min
      else (case mod_time of
              PStr s \<Rightarrow> Inr (case parse (replace_Z s) of Some t \<Rightarrow> t | None \<Rightarrow> datetime_min)
            | _ \<Rightarrow> Inl AttributeError))"

text \<open>The key function of line 242\<close>

definition mod_time_key :: "(string \<Rightarrow> datetime option) \<Rightarrow> pyval \<Rightarrow> py_error + datetime" where
  "mod_time_key parse entry =
     (case py_get entry ''ModTime'' PNone of
        Inl e \<Rightarrow> Inl e
      | Inr m \<Rightarrow> parse_time parse m)"

fun mod_time_keys ::
  "(string \<Rightarrow> datetime option) \<Rightarrow> pyval list \<Rightarrow> py_error + datetime list" where
  "mod_time_keys parse [] = Inr []"
| "mod_time_keys parse (entry # entries) =
     (case mod_time_key parse entry of
        Inl e \<Rightarrow> Inl e
      | Inr k \<Rightarrow>
          (case mod_time_keys parse entries of
             Inl e \<Rightarrow> Inl e
           | Inr ks \<Rightarrow> Inr (k # ks)))"

text \<open>
  Line 242: \<^verbatim>\<open>backups.sort(key=...)\<close> computes the key of every entry, then sorts, stably,
  by comparing keys. When naive and aware keys are both present, some comparison is between
  a naive and an aware key (a sort compares each element with at least one other, and it
  cannot tell two groups apart without comparing across them), and the sort raises.
\<close>

definition sort_backups ::
  "(string \<Rightarrow> datetime option) \<Rightarrow> pyval list \<Rightarrow> py_error + pyval list" where
  "sort_backups parse backups =
     (case mod_time_keys parse backups of
        Inl e \<Rightarrow> Inl e
      | Inr ks \<Rightarrow>
          if (\<exists>k \<in> set ks. is_naive k) \<and> (\<exists>k \<in> set ks. \<not> is_naive k) then Inl TypeError
          else Inr (map snd (sort_key (\<lambda>(k, entry). instant k) (zip ks backups))))"

text \<open>
  Lines 228 to 248: the entries to delete, oldest first; \<^verbatim>\<open>backups[:-keep]\<close> for
  \<^verbatim>\<open>keep >= 1\<close> is the list without its last \<^verbatim>\<open>keep\<close> elements.
\<close>

definition backups_to_delete ::
  "(string \<Rightarrow> datetime option) \<Rightarrow> int \<Rightarrow> pyval list \<Rightarrow> py_error + pyval list" where
  "backups_to_delete parse keep entries =
     (case filter_backups entries of
        Inl e \<Rightarrow> Inl e
      | Inr backups \<Rightarrow>
          (case sort_backups parse backups of
             Inl e \<Rightarrow> Inl e
           | Inr sorted_backups \<Rightarrow>
               if int (length sorted_backups) \<le> keep then Inr []
               else Inr (take (length sorted_backups - nat keep) sorted_backups)))"

text \<open>\<^verbatim>\<open>remote_path.rstrip('/')\<close>\<close>

definition rstrip_slash :: "string \<Rightarrow> string" where
  "rstrip_slash s = rev (dropWhile (\<lambda>c. c = CHR ''/'') (rev s))"

text \<open>Lines 210, 188 and 190: the destination \<^verbatim>\<open>remote:remote_path\<close>\<close>

definition remote_target :: "string \<Rightarrow> string \<Rightarrow> string" where
  "remote_target remote remote_path =
     (if remote_path \<noteq> [] then remote @ '':'' @ remote_path else remote @ '':'')"

text \<open>Lines 256 to 259: what stands before \<^verbatim>\<open>rel_path\<close> in \<^verbatim>\<open>delete_target\<close>\<close>

definition delete_dir :: "string \<Rightarrow> string \<Rightarrow> string" where
  "delete_dir remote remote_path =
     (if remote_path \<noteq> [] then remote @ '':'' @ rstrip_slash remote_path @ ''/''
      else remote @ '':'')"

text \<open>Lines 251 to 262\<close>

fun delete_loop ::
  "env \<Rightarrow> string \<Rightarrow> pyval list \<Rightarrow> world \<Rightarrow> py_error option \<times> world" where
  "delete_loop env dir [] w = (None, w)"
| "delete_loop env dir (entry # rest) w =
     (case py_get entry ''Path'' PNone of
        Inl e \<Rightarrow> (Some e, w)
      | Inr p \<Rightarrow>
          (case (if truthy p then Inr p else py_get entry ''Name'' PNone) of
             Inl e \<Rightarrow> (Some e, w)
           | Inr rel_path \<Rightarrow>
               if \<not> truthy rel_path then delete_loop env dir rest w
               else (case run_cmd env (RcloneDeletefile dir rel_path) w of
                       (Some e, w') \<Rightarrow> (Some e, w')
                     | (None, w') \<Rightarrow> delete_loop env dir rest w')))"

text \<open>\<^verbatim>\<open>rotate_project_backups\<close>; \<open>None\<close> is a normal return.\<close>

definition rotate_project_backups ::
  "env \<Rightarrow> string \<Rightarrow> string \<Rightarrow> int \<Rightarrow> world \<Rightarrow> py_error option \<times> world" where
  "rotate_project_backups env remote remote_path keep w =
     (if keep < 1 then (Some ValueError, w)
      else
        let target = remote_target remote remote_path;
            listing = lsjson_result env (length (trace w)) target;
            w1 = w\<lparr>trace := trace w @
                   [(RcloneLsjson target, case listing of Inl e \<Rightarrow> Some e | Inr j \<Rightarrow> None)]\<rparr>
        in (case listing of
              Inl e \<Rightarrow> (Some e, w1)
            | Inr j \<Rightarrow>
                (case py_iter j of
                   Inl e \<Rightarrow> (Some e, w1)
                 | Inr entries \<Rightarrow>
                     (case backups_to_delete (fromisoformat env) keep entries of
                        Inl e \<Rightarrow> (Some e, w1)
                      | Inr to_delete \<Rightarrow>
                          delete_loop env (delete_dir remote remote_path) to_delete w1))))"

section \<open>The workflow of one project: \<^verbatim>\<open>backup_project\<close>\<close>

text \<open>\<^verbatim>\<open>find_compose_file\<close>: the first candidate that is a file.\<close>

definition find_compose_file :: "filesystem \<Rightarrow> path \<Rightarrow> py_error + path" where
  "find_compose_file f project_dir =
     (case filter (\<lambda>name. is_file f (project_dir @ [name]))
             [''docker-compose.yml'', ''docker-compose.yaml'', ''compose.yml'', ''compose.yaml''] of
        [] \<Rightarrow> Inl FileNotFoundError
      | name # _ \<Rightarrow> Inr (project_dir @ [name]))"

text \<open>\<^verbatim>\<open>detect_docker_compose_command\<close>\<close>

definition detect_docker_compose_command :: "env \<Rightarrow> py_error + compose_cmd" where
  "detect_docker_compose_command env =
     (if compose_plugin env then Inr DockerCompose
      else if compose_standalone env then Inr DockerComposeStandalone
      else Inl RuntimeError)"

text \<open>
  \<^verbatim>\<open>create_project_zip\<close>. \<^verbatim>\<open>shutil.make_archive\<close> writes the file named \<^verbatim>\<open>base_name\<close> followed
  by \<^verbatim>\<open>.zip\<close> in the parent of the project; the function returns
  \<^verbatim>\<open>zip_base.with_suffix(".zip")\<close>.
\<close>

definition create_project_zip ::
  "env \<Rightarrow> path \<Rightarrow> string \<Rightarrow> world \<Rightarrow> (py_error + path) \<times> world" where
  "create_project_zip env project_dir timestamp w =
     (let project_name = path_name project_dir;
          zip_base = project_name @ ''-project-'' @ timestamp;
          written = path_parent project_dir @ [zip_base @ ''.zip'']
      in case perform env (MakeArchive written project_dir (fs_under project_dir (fs w)))
                (fs_add written File) w of
           (Some e, w') \<Rightarrow> (Inl e, w')
         | (None, w') \<Rightarrow> (Inr (path_parent project_dir @ [with_suffix zip_base ''.zip'']), w'))"

text \<open>\<^verbatim>\<open>temp_dir.mkdir(parents=True, exist_ok=False)\<close>; the project directory exists.\<close>

definition mkdir :: "env \<Rightarrow> path \<Rightarrow> world \<Rightarrow> py_error option \<times> world" where
  "mkdir env p w =
     (if path_exists (fs w) p then refuse (Mkdir p) FileExistsError w
      else perform env (Mkdir p) (fs_add p Dir) w)"

text \<open>
  \<^verbatim>\<open>shutil.move(src, dst)\<close>, called with a destination in the staging directory that
  \<^verbatim>\<open>mkdir\<close> has just created, so the destination does not exist. A source that does not exist
  is a \<^verbatim>\<open>FileNotFoundError\<close>. A destination below the source cannot be renamed to, and
  \<^verbatim>\<open>shutil.move\<close> raises \<^verbatim>\<open>shutil.Error\<close>, a subclass of \<^verbatim>\<open>OSError\<close> (cannot move a directory
  into itself); this is the case when the path returned by \<^verbatim>\<open>create_project_zip\<close> is the
  project directory, as for a project named \<^verbatim>\<open>site.zip\<close>.
\<close>

definition move :: "env \<Rightarrow> path \<Rightarrow> path \<Rightarrow> world \<Rightarrow> py_error option \<times> world" where
  "move env src dst w =
     (if \<not> path_exists (fs w) src then refuse (Move src dst) FileNotFoundError w
      else if prefix src dst \<and> src \<noteq> dst then refuse (Move src dst) OSError w
      else perform env (Move src dst) (fs_move src dst) w)"

text \<open>
  \<^verbatim>\<open>export_volume\<close>: the container writes the archive into the staging directory.
\<close>

definition export_volume ::
  "env \<Rightarrow> string \<Rightarrow> path \<Rightarrow> string \<Rightarrow> world \<Rightarrow> (py_error + path) \<times> world" where
  "export_volume env volume_name temp_dir timestamp w =
     (let archive_name = ''volume-'' @ volume_name @ ''-'' @ timestamp @ ''.tar.gz'';
          archive_path = temp_dir @ [archive_name]
      in case perform env (ExportVolume volume_name temp_dir archive_name)
                (fs_add archive_path File) w of
           (Some e, w') \<Rightarrow> (Inl e, w')
         | (None, w') \<Rightarrow> (Inr archive_path, w'))"

text \<open>Lines 316 to 321\<close>

fun export_volumes ::
  "env \<Rightarrow> string list \<Rightarrow> path \<Rightarrow> string \<Rightarrow> world \<Rightarrow> (py_error + path list) \<times> world" where
  "export_volumes env [] temp_dir timestamp w = (Inr [], w)"
| "export_volumes env (vol # vols) temp_dir timestamp w =
     (case export_volume env vol temp_dir timestamp w of
        (Inl e, w') \<Rightarrow> (Inl e, w')
      | (Inr archive_path, w') \<Rightarrow>
          (case export_volumes env vols temp_dir timestamp w' of
             (Inl e, w'') \<Rightarrow> (Inl e, w'')
           | (Inr exported_archives, w'') \<Rightarrow> (Inr (archive_path # exported_archives), w'')))"

text \<open>\<^verbatim>\<open>create_final_zip_from_temp\<close>\<close>

definition create_final_zip_from_temp ::
  "env \<Rightarrow> path \<Rightarrow> path \<Rightarrow> string \<Rightarrow> world \<Rightarrow> (py_error + path) \<times> world" where
  "create_final_zip_from_temp env project_dir temp_dir timestamp w =
     (let project_name = path_name project_dir;
          final_base = project_name @ ''-'' @ timestamp;
          written = project_dir @ [final_base @ ''.zip'']
      in case perform env (MakeArchive written temp_dir (fs_under temp_dir (fs w)))
                (fs_add written File) w of
           (Some e, w') \<Rightarrow> (Inl e, w')
         | (None, w') \<Rightarrow> (Inr (project_dir @ [with_suffix final_base ''.zip'']), w'))"

text \<open>\<^verbatim>\<open>rclone_copy_file\<close>; \<^verbatim>\<open>rclone copy\<close> fails on a source that does not exist.\<close>

definition rclone_copy_file ::
  "env \<Rightarrow> path \<Rightarrow> string \<Rightarrow> string \<Rightarrow> world \<Rightarrow> py_error option \<times> world" where
  "rclone_copy_file env file_path remote remote_path w =
     (let dest = remote_target remote remote_path
      in if \<not> path_exists (fs w) file_path then refuse (RcloneCopy file_path dest) RuntimeError w
         else run_cmd env (RcloneCopy file_path dest) w)"

text \<open>
  \<^verbatim>\<open>shutil.rmtree\<close> deletes the tree from the leaves up and raises at the first path it cannot
  delete: when it fails, part of the tree may be gone already.
\<close>

definition rmtree :: "env \<Rightarrow> path \<Rightarrow> world \<Rightarrow> py_error option \<times> world" where
  "rmtree env p w =
     (if \<not> path_exists (fs w) p then refuse (Rmtree p) FileNotFoundError w
      else
        let n = length (trace w);
            r = cmd_result env n (Rmtree p)
        in (r, w\<lparr>fs := (if r = None then fs_rmtree p (fs w)
                          else fs_rmtree_partial p (rmtree_removed env n p) (fs w)),
                  trace := trace w @ [(Rmtree p, r)]\<rparr>))"

text \<open>\<^verbatim>\<open>Path.unlink\<close>\<close>

definition unlink :: "env \<Rightarrow> path \<Rightarrow> world \<Rightarrow> py_error option \<times> world" where
  "unlink env p w =
     (if \<not> path_exists (fs w) p then refuse (Unlink p) FileNotFoundError w
      else perform env (Unlink p) (fs_remove p) w)"

text \<open>
  Lines 303 and 304: \<^verbatim>\<open>', '.join(volumes)\<close> raises \<^verbatim>\<open>TypeError\<close> when a name is not a string;
  the names are strings from there on.
\<close>

definition volume_names :: "pyval list \<Rightarrow> py_error + string list" where
  "volume_names volumes =
     (if list_all is_str volumes then Inr (map str_of volumes) else Inl TypeError)"

text \<open>Lines 299 to 309: nothing is changed, the volumes and the compose command are found.\<close>

definition discover ::
  "env \<Rightarrow> path \<Rightarrow> world \<Rightarrow> py_error + (string list \<times> compose_cmd)" where
  "discover env project_dir w =
     (case find_compose_file (fs w) project_dir of
        Inl e \<Rightarrow> Inl e
      | Inr compose_file \<Rightarrow>
          (case read_yaml env compose_file of
             Inl e \<Rightarrow> Inl e
           | Inr data \<Rightarrow>
               (case extract_named_volumes data of
                  Inl e \<Rightarrow> Inl e
                | Inr volumes \<Rightarrow>
                    (case volume_names volumes of
                       Inl e \<Rightarrow> Inl e
                     | Inr vols \<Rightarrow>
                         (case detect_docker_compose_command env of
                            Inl e \<Rightarrow> Inl e
                          | Inr docker_compose_cmd \<Rightarrow> Inr (vols, docker_compose_cmd))))))"

text \<open>Lines 311 to 325: services down, volumes exported, services up.\<close>

definition snapshot_volumes ::
  "env \<Rightarrow> path \<Rightarrow> path \<Rightarrow> string \<Rightarrow> string list \<Rightarrow> compose_cmd \<Rightarrow> world \<Rightarrow>
     py_error option \<times> world" where
  "snapshot_volumes env project_dir temp_dir timestamp vols docker_compose_cmd w =
     (case run_cmd env (ComposeDown docker_compose_cmd project_dir) w of
        (Some e, w1) \<Rightarrow> (Some e, w1)
      | (None, w1) \<Rightarrow>
          (case export_volumes env vols temp_dir timestamp w1 of
             (Inl e, w2) \<Rightarrow> (Some e, w2)
           | (Inr exported_archives, w2) \<Rightarrow>
               run_cmd env (ComposeUp docker_compose_cmd project_dir) w2))"

text \<open>Lines 336 to 348: the local files are removed, then the remote is rotated.\<close>

definition cleanup_and_rotate ::
  "env \<Rightarrow> path \<Rightarrow> path \<Rightarrow> string \<Rightarrow> string \<Rightarrow> int \<Rightarrow> world \<Rightarrow>
     py_error option \<times> world" where
  "cleanup_and_rotate env temp_dir final_zip_path remote remote_path backups_to_keep w =
     (case rmtree env temp_dir w of
        (Some e, w1) \<Rightarrow> (Some e, w1)
      | (None, w1) \<Rightarrow>
          (case (if path_exists (fs w1) final_zip_path then unlink env final_zip_path w1
                 else (None, w1)) of
             (Some e, w2) \<Rightarrow> (Some e, w2)
           | (None, w2) \<Rightarrow> rotate_project_backups env remote remote_path backups_to_keep w2))"

text \<open>
  Lines 298 to 358, the body of \<^verbatim>\<open>try\<close>. The handler of line 353 prints and raises the
  exception again, so the exception of a step is the exception of the whole.
\<close>

definition backup_steps ::
  "env \<Rightarrow> path \<Rightarrow> string \<Rightarrow> string \<Rightarrow> int \<Rightarrow> string \<Rightarrow> path \<Rightarrow> world \<Rightarrow>
     path outcome \<times> world" where
  "backup_steps env project_dir remote remote_path backups_to_keep timestamp temp_dir w =
     (case discover env project_dir w of
        Inl e \<Rightarrow> (Raised e, w)
      | Inr (vols, docker_compose_cmd) \<Rightarrow>
          (case snapshot_volumes env project_dir temp_dir timestamp vols docker_compose_cmd w of
             (Some e, w1) \<Rightarrow> (Raised e, w1)
           | (None, w1) \<Rightarrow>
               (case create_final_zip_from_temp env project_dir temp_dir timestamp w1 of
                  (Inl e, w2) \<Rightarrow> (Raised e, w2)
                | (Inr final_zip_path, w2) \<Rightarrow>
                    (case rclone_copy_file env final_zip_path remote remote_path w2 of
                       (Some e, w3) \<Rightarrow> (Raised e, w3)
                     | (None, w3) \<Rightarrow>
                         (case cleanup_and_rotate env temp_dir final_zip_path remote remote_path
                                 backups_to_keep w3 of
                            (Some e, w4) \<Rightarrow> (Raised e, w4)
                          | (None, w4) \<Rightarrow> (Returned final_zip_path, w4))))))"

text \<open>
  \<^verbatim>\<open>backup_project\<close>, on the resolved path of the project. A \<^verbatim>\<open>FileExistsError\<close> of
  \<^verbatim>\<open>mkdir\<close> ends in \<^verbatim>\<open>sys.exit(1)\<close>; any other exception of lines 282 to 294 is raised.
\<close>

definition staging_dir :: "path \<Rightarrow> string \<Rightarrow> path" where
  "staging_dir project_dir timestamp = project_dir @ [''.docker-backup-temp-'' @ timestamp]"

definition backup_project ::
  "env \<Rightarrow> path \<Rightarrow> string \<Rightarrow> string \<Rightarrow> int \<Rightarrow> world \<Rightarrow> path outcome \<times> world" where
  "backup_project env project_dir rclone_remote remote_path backups_to_keep w =
     (if \<not> is_dir (fs w) project_dir then (Raised FileNotFoundError, w)
      else
        let timestamp = now env (length (trace w));
            temp_dir = staging_dir project_dir timestamp
        in (case create_project_zip env project_dir timestamp w of
              (Inl e, w1) \<Rightarrow> (Raised e, w1)
            | (Inr project_zip_outside, w1) \<Rightarrow>
                (case mkdir env temp_dir w1 of
                   (Some e, w2) \<Rightarrow>
                     if e = FileExistsError then (SysExit 1, w2) else (Raised e, w2)
                 | (None, w2) \<Rightarrow>
                     (case move env project_zip_outside
                             (temp_dir @ [path_name project_zip_outside]) w2 of
                        (Some e, w3) \<Rightarrow> (Raised e, w3)
                      | (None, w3) \<Rightarrow>
                          backup_steps env project_dir rclone_remote remote_path
                            backups_to_keep timestamp temp_dir w3))))"

section \<open>The batch: \<^verbatim>\<open>backup_all_projects\<close>\<close>

text \<open>
  \<^verbatim>\<open>iter_project_dirs\<close>: the entries of the root, sorted, those that are directories. The
  entries of one directory are ordered by their names.
\<close>

definition iter_project_dirs :: "filesystem \<Rightarrow> path \<Rightarrow> path list" where
  "iter_project_dirs f root =
     filter (is_dir f)
       (sort (remdups (filter (\<lambda>p. p \<noteq> [] \<and> path_parent p = root) (map fst f))))"

text \<open>
  Lines 34 to 43: the loop over the projects, with the list \<^verbatim>\<open>failures\<close>. The handler
  catches \<^verbatim>\<open>Exception\<close>; \<^verbatim>\<open>SystemExit\<close> is not one and leaves the loop. The call of line 40
  takes the default \<^verbatim>\<open>backups_to_keep = 4\<close>.
\<close>

fun backup_each ::
  "env \<Rightarrow> string \<Rightarrow> string \<Rightarrow> path list \<Rightarrow> (path \<times> py_error) list \<Rightarrow> world \<Rightarrow>
     (path \<times> py_error) list outcome \<times> world" where
  "backup_each env rclone_remote remote_path [] failures w = (Returned failures, w)"
| "backup_each env rclone_remote remote_path (project_dir # rest) failures w =
     (case backup_project env project_dir rclone_remote remote_path 4 w of
        (Returned final_zip, w') \<Rightarrow> backup_each env rclone_remote remote_path rest failures w'
      | (Raised e, w') \<Rightarrow>
          backup_each env rclone_remote remote_path rest (failures @ [(project_dir, e)]) w'
      | (SysExit code, w') \<Rightarrow> (SysExit code, w'))"

text \<open>\<^verbatim>\<open>backup_all_projects\<close>, on the resolved path of the root.\<close>

definition backup_all_projects ::
  "env \<Rightarrow> string \<Rightarrow> string \<Rightarrow> path \<Rightarrow> world \<Rightarrow> unit outcome \<times> world" where
  "backup_all_projects env rclone_remote remote_path projects_root w =
     (if \<not> is_dir (fs w) projects_root then (Raised FileNotFoundError, w)
      else
        let project_dirs = iter_project_dirs (fs w) projects_root
        in if project_dirs = [] then (Raised FileNotFoundError, w)
           else (case backup_each env rclone_remote remote_path project_dirs [] w of
                   (Returned failures, w') \<Rightarrow>
                     if failures \<noteq> [] then
                       (Raised (CompletedWithFailures
                          (map (\<lambda>(p, err). (path_name p, err)) failures)), w')
                     else (Returned (), w')
                 | (Raised e, w') \<Rightarrow> (Raised e, w')
                 | (SysExit code, w') \<Rightarrow> (SysExit code, w')))"

text \<open>
  The exit code of the process, for both \<^verbatim>\<open>main\<close> functions: 0 after a return, 1 after an
  exception (the handler calls \<^verbatim>\<open>sys.exit(1)\<close>), the code of \<^verbatim>\<open>sys.exit\<close> otherwise.
\<close>

fun exit_code :: "'a outcome \<Rightarrow> int" where
  "exit_code (Returned x) = 0"
| "exit_code (Raised e) = 1"
| "exit_code (SysExit code) = code"

subsection \<open>Retention as the specification reads it\<close>

text \<open>
  The entries of a listing that are archives (not a directory, name ending in \<^verbatim>\<open>.zip\<close>),
  their modification instants, the archives sorted by them (stably, as \<open>sort_key\<close> sorts),
  and the two parts of the sorted list: the oldest ones beyond \<open>keep\<close>, to delete, and the
  newest \<open>keep\<close>, to retain.
\<close>

fun is_dict :: "pyval \<Rightarrow> bool" where
  "is_dict (PDict kvs) = True"
| "is_dict _ = False"

text \<open>
  An entry of a listing is an object with the fields \<^verbatim>\<open>Path\<close>, \<^verbatim>\<open>IsDir\<close> and \<^verbatim>\<open>ModTime\<close>. It
  is a directory when its field \<^verbatim>\<open>IsDir\<close> is set; its name is the string in its field
  \<^verbatim>\<open>Path\<close>.
\<close>

definition entry_field :: "pyval \<Rightarrow> string \<Rightarrow> pyval option" where
  "entry_field entry k = (case entry of PDict kvs \<Rightarrow> map_of kvs (PStr k) | _ \<Rightarrow> None)"

definition is_directory_entry :: "pyval \<Rightarrow> bool" where
  "is_directory_entry entry =
     (case entry_field entry ''IsDir'' of Some flag \<Rightarrow> truthy flag | None \<Rightarrow> False)"

definition entry_name :: "pyval \<Rightarrow> string option" where
  "entry_name entry =
     (case entry_field entry ''Path'' of Some (PStr name) \<Rightarrow> Some name | _ \<Rightarrow> None)"

definition is_archive_entry :: "pyval \<Rightarrow> bool" where
  "is_archive_entry entry =
     (\<not> is_directory_entry entry \<and>
      (case entry_name entry of Some name \<Rightarrow> suffix ''.zip'' name | None \<Rightarrow> False))"

definition archive_entries :: "pyval list \<Rightarrow> pyval list" where
  "archive_entries entries = filter is_archive_entry entries"

definition mod_instant :: "(string \<Rightarrow> datetime option) \<Rightarrow> pyval \<Rightarrow> int" where
  "mod_instant parse entry = (case mod_time_key parse entry of Inr k \<Rightarrow> instant k | Inl e \<Rightarrow> 0)"

text \<open>
  The keys of a list of entries can be compared with each other when they are all naive or
  all aware.
\<close>

definition key_is :: "(string \<Rightarrow> datetime option) \<Rightarrow> bool \<Rightarrow> pyval \<Rightarrow> bool" where
  "key_is parse naive entry =
     (case mod_time_key parse entry of Inr k \<Rightarrow> is_naive k = naive | Inl e \<Rightarrow> False)"

definition comparable_keys :: "(string \<Rightarrow> datetime option) \<Rightarrow> pyval list \<Rightarrow> bool" where
  "comparable_keys parse backups =
     (list_all (key_is parse True) backups \<or> list_all (key_is parse False) backups)"

definition rel_path_of :: "pyval \<Rightarrow> pyval" where
  "rel_path_of entry = (case py_get entry ''Path'' PNone of Inr p \<Rightarrow> p | Inl e \<Rightarrow> PNone)"

definition sorted_archives :: "(string \<Rightarrow> datetime option) \<Rightarrow> pyval list \<Rightarrow> pyval list" where
  "sorted_archives parse entries = sort_key (mod_instant parse) (archive_entries entries)"

definition expected_deleted ::
  "(string \<Rightarrow> datetime option) \<Rightarrow> int \<Rightarrow> pyval list \<Rightarrow> pyval list" where
  "expected_deleted parse keep entries =
     take (length (archive_entries entries) - nat keep) (sorted_archives parse entries)"

definition expected_retained ::
  "(string \<Rightarrow> datetime option) \<Rightarrow> int \<Rightarrow> pyval list \<Rightarrow> pyval list" where
  "expected_retained parse keep entries =
     drop (length (archive_entries entries) - nat keep) (sorted_archives parse entries)"

definition delete_events :: "string \<Rightarrow> pyval list \<Rightarrow> event list" where
  "delete_events dir es = map (\<lambda>entry. (RcloneDeletefile dir (rel_path_of entry), None)) es"

text \<open>
  A listing for the scenario of the specification: six archives and one other file, the
  newest four to be kept. \<open>sample_fromisoformat\<close> gives the values of
  \<^verbatim>\<open>datetime.fromisoformat\<close> on the seven time stamps of the listing.
\<close>

definition lsjson_entry :: "string \<Rightarrow> string \<Rightarrow> pyval" where
  "lsjson_entry name mod_time =
     PDict [(PStr ''Path'', PStr name), (PStr ''Name'', PStr name),
            (PStr ''ModTime'', PStr mod_time), (PStr ''IsDir'', PBool False)]"

definition sample_listing :: "pyval list" where
  "sample_listing =
     [lsjson_entry ''shop-20240103-030000.zip'' ''2024-01-03T03:00:00Z'',
      lsjson_entry ''shop-20240101-030000.zip'' ''2024-01-01T03:00:00Z'',
      lsjson_entry ''shop-20240106-030000.zip'' ''2024-01-06T03:00:00Z'',
      lsjson_entry ''notes.txt'' ''2023-12-31T03:00:00Z'',
      lsjson_entry ''shop-20240102-030000.zip'' ''2024-01-02T03:00:00Z'',
      lsjson_entry ''shop-20240105-030000.zip'' ''2024-01-05T03:00:00Z'',
      lsjson_entry ''shop-20240104-030000.zip'' ''2024-01-04T03:00:00Z'']"

definition sample_fromisoformat :: "string \<Rightarrow> datetime option" where
  "sample_fromisoformat =
     map_of [(''2023-12-31T03:00:00+00:00'', Aware 63839588400000000),
             (''2024-01-01T03:00:00+00:00'', Aware 63839674800000000),
             (''2024-01-02T03:00:00+00:00'', Aware 63839761200000000),
             (''2024-01-03T03:00:00+00:00'', Aware 63839847600000000),
             (''2024-01-04T03:00:00+00:00'', Aware 63839934000000000),
             (''2024-01-05T03:00:00+00:00'', Aware 63840020400000000),
             (''2024-01-06T03:00:00+00:00'', Aware 63840106800000000)]"

definition sample_env :: env where
  "sample_env =
     \<lparr>now = (\<lambda>n. ''20240107-030000''),
      cmd_result = (\<lambda>n a. None),
      read_yaml = (\<lambda>p. Inr shop_descriptor),
      compose_plugin = True,
      compose_standalone = False,
      lsjson_result = (\<lambda>n target. Inr (PList sample_listing)),
      fromisoformat = sample_fromisoformat,
      rmtree_removed = (\<lambda>n p. [])\<rparr>"

text \<open>A listing of two archives, the first one without \<^verbatim>\<open>ModTime\<close>.\<close>

definition mixed_listing :: "pyval list" where
  "mixed_listing =
     [PDict [(PStr ''Path'', PStr ''shop-old.zip''), (PStr ''IsDir'', PBool False)],
      lsjson_entry ''shop-20240101-030000.zip'' ''2024-01-01T03:00:00Z'']"

text \<open>
  A listing of a directory and three archives, one of them without \<^verbatim>\<open>ModTime\<close>.
\<close>

definition undated_listing :: "pyval list" where
  "undated_listing =
     [lsjson_entry ''shop-20240102-030000.zip'' ''2024-01-02T03:00:00Z'',
      PDict [(PStr ''Path'', PStr ''attic.zip''), (PStr ''Name'', PStr ''attic.zip''),
             (PStr ''ModTime'', PStr ''2023-12-31T03:00:00Z''), (PStr ''IsDir'', PBool True)],
      PDict [(PStr ''Path'', PStr ''shop-undated.zip''), (PStr ''Name'', PStr ''shop-undated.zip''),
             (PStr ''IsDir'', PBool False)],
      lsjson_entry ''shop-20240101-030000.zip'' ''2024-01-01T03:00:00Z'']"

definition undated_env :: env where
  "undated_env = sample_env\<lparr>lsjson_result := (\<lambda>n target. Inr (PList undated_listing))\<rparr>"

section \<open>Runs as the specification reads them\<close>

text \<open>The events that a call added to the trace.\<close>

definition new_events :: "world \<Rightarrow> world \<Rightarrow> event list" where
  "new_events w w' = drop (length (trace w)) (trace w')"

text \<open>
  The file that \<^verbatim>\<open>create_project_zip\<close> writes: \<^verbatim>\<open><projectName>-project-<timestamp>.zip\<close> in
  the parent of the project directory.
\<close>

definition tree_archive :: "path \<Rightarrow> string \<Rightarrow> path" where
  "tree_archive project_dir timestamp =
     path_parent project_dir @ [path_name project_dir @ ''-project-'' @ timestamp @ ''.zip'']"

text \<open>A file system is a tree when the parent of every path in it is in it.\<close>

definition fs_tree :: "filesystem \<Rightarrow> bool" where
  "fs_tree f = list_all (\<lambda>(p, k). p = [] \<or> path_exists f (butlast p)) f"

text \<open>
  The operations of the cleanup stage (lines 336 to 343) and the commands of the rotation.
  A list of events is quiet when it has neither.
\<close>

fun is_cleanup :: "action \<Rightarrow> bool" where
  "is_cleanup (Rmtree p) = True"
| "is_cleanup (Unlink p) = True"
| "is_cleanup _ = False"

fun is_rotation :: "action \<Rightarrow> bool" where
  "is_rotation (RcloneLsjson t) = True"
| "is_rotation (RcloneDeletefile d r) = True"
| "is_rotation _ = False"

definition quiet :: "event list \<Rightarrow> bool" where
  "quiet evs = (\<forall>ev \<in> set evs. \<not> is_cleanup (fst ev) \<and> \<not> is_rotation (fst ev))"

text \<open>
  A failed cleanup operation stops the run: it is the last event, its exception is the
  result, and no command of the rotation was run.
\<close>

definition fail_stop :: "py_error option \<Rightarrow> event list \<Rightarrow> bool" where
  "fail_stop r evs =
     (\<forall>a e. (a, Some e) \<in> set evs \<and> is_cleanup a \<longrightarrow>
        r = Some e \<and> last evs = (a, Some e) \<and> (\<forall>ev \<in> set evs. \<not> is_rotation (fst ev)))"

text \<open>The exception of an outcome, if it is one.\<close>

fun raised :: "'a outcome \<Rightarrow> py_error option" where
  "raised (Raised e) = Some e"
| "raised _ = None"

text \<open>
  The project \<^verbatim>\<open>shop\<close> on disk, in \<^verbatim>\<open>/srv/shop\<close>, before a run; and an environment in which
  \<^verbatim>\<open>shutil.rmtree\<close> fails and everything else succeeds.
\<close>

definition shop_fs :: filesystem where
  "shop_fs = [([], Dir), ([''srv''], Dir), ([''srv'', ''shop''], Dir),
     ([''srv'', ''shop'', ''docker-compose.yml''], File),
     ([''srv'', ''shop'', ''conf''], Dir)]"

definition shop_world :: world where
  "shop_world = \<lparr>fs = shop_fs, trace = []\<rparr>"

definition rmtree_fails :: env where
  "rmtree_fails = sample_env\<lparr>cmd_result :=
     (\<lambda>n a. case a of Rmtree p \<Rightarrow> Some OSError | _ \<Rightarrow> None)\<rparr>"

text \<open>
  The world a run leaves when the staging directory already exists: the project-tree
  archive has been written, \<^verbatim>\<open>mkdir\<close> has failed, nothing else has happened.
\<close>

definition after_collision :: "env \<Rightarrow> path \<Rightarrow> world \<Rightarrow> world" where
  "after_collision env project_dir w =
     (let timestamp = now env (length (trace w));
          archive = tree_archive project_dir timestamp
      in w\<lparr>fs := fs_add archive File (fs w),
            trace := trace w @
              [(MakeArchive archive project_dir (fs_under project_dir (fs w)), None),
               (Mkdir (staging_dir project_dir timestamp), Some FileExistsError)]\<rparr>)"

subsection \<open>The batch as the specification reads it\<close>

text \<open>
  The workflow run on each directory in turn, each run starting in the world that the run
  before it left: the outcomes, and the world after the last run. The failures of the
  batch are the runs that raised, with their exceptions, in order; the batch succeeds when
  there is none and raises the aggregate error otherwise.
\<close>

fun batch_runs ::
  "env \<Rightarrow> string \<Rightarrow> string \<Rightarrow> path list \<Rightarrow> world \<Rightarrow> (path \<times> path outcome) list" where
  "batch_runs env remote remote_path [] w = []"
| "batch_runs env remote remote_path (p # ps) w =
     (p, fst (backup_project env p remote remote_path 4 w)) #
     batch_runs env remote remote_path ps (snd (backup_project env p remote remote_path 4 w))"

fun batch_world :: "env \<Rightarrow> string \<Rightarrow> string \<Rightarrow> path list \<Rightarrow> world \<Rightarrow> world" where
  "batch_world env remote remote_path [] w = w"
| "batch_world env remote remote_path (p # ps) w =
     batch_world env remote remote_path ps (snd (backup_project env p remote remote_path 4 w))"

fun failure_of :: "path \<times> path outcome \<Rightarrow> (path \<times> py_error) list" where
  "failure_of (p, Raised e) = [(p, e)]"
| "failure_of (p, out) = []"

definition failures_of :: "(path \<times> path outcome) list \<Rightarrow> (path \<times> py_error) list" where
  "failures_of runs = concat (map failure_of runs)"

fun is_exit :: "'a outcome \<Rightarrow> bool" where
  "is_exit (SysExit code) = True"
| "is_exit _ = False"

fun is_returned :: "'a outcome \<Rightarrow> bool" where
  "is_returned (Returned x) = True"
| "is_returned _ = False"

definition batch_outcome :: "(path \<times> path outcome) list \<Rightarrow> unit outcome" where
  "batch_outcome runs =
     (if failures_of runs = [] then Returned ()
      else Raised (CompletedWithFailures (map (\<lambda>(p, err). (path_name p, err)) (failures_of runs))))"

text \<open>
  Worlds for the batch: a root with two projects, the first of which holds a staging
  directory with the name the run is about to use; a root with a file and two projects, one
  of them without a compose file; a root without any project.
\<close>

definition collision_world :: world where
  "collision_world =
     \<lparr>fs = [([], Dir), ([''srv''], Dir),
             ([''srv'', ''beta''], Dir), ([''srv'', ''beta'', ''docker-compose.yml''], File),
             ([''srv'', ''alpha''], Dir), ([''srv'', ''alpha'', ''docker-compose.yml''], File),
             ([''srv'', ''alpha'', ''.docker-backup-temp-20240107-030000''], Dir)],
      trace = []\<rparr>"

definition two_projects_world :: world where
  "two_projects_world =
     \<lparr>fs = [([], Dir), ([''srv''], Dir), ([''srv'', ''notes.txt''], File),
             ([''srv'', ''web''], Dir),
             ([''srv'', ''db''], Dir), ([''srv'', ''db'', ''compose.yaml''], File)],
      trace = []\<rparr>"

definition empty_root_world :: world where
  "empty_root_world = \<lparr>fs = [([], Dir), ([''srv''], Dir), ([''srv'', ''notes.txt''], File)],
     trace = []\<rparr>"

text \<open>
  A project directory with a dot in its name, \<^verbatim>\<open>/srv/example.com\<close>, next to a file
  \<^verbatim>\<open>/srv/example.zip\<close> and holding a file \<^verbatim>\<open>example.zip\<close>; and an environment in which the
  export of the volume \<^verbatim>\<open>shop_dbdata\<close> fails and everything else succeeds.
\<close>

definition dotted_world :: world where
  "dotted_world =
     \<lparr>fs = [([], Dir), ([''srv''], Dir), ([''srv'', ''example.zip''], File),
             ([''srv'', ''example.com''], Dir),
             ([''srv'', ''example.com'', ''docker-compose.yml''], File),
             ([''srv'', ''example.com'', ''example.zip''], File)],
      trace = []\<rparr>"

definition export_fails :: env where
  "export_fails = sample_env\<lparr>cmd_result :=
     (\<lambda>n a. case a of
        ExportVolume v t archive \<Rightarrow> if v = ''shop_dbdata'' then Some RuntimeError else None
      | _ \<Rightarrow> None)\<rparr>"

text \<open>Uploads and the two compose commands, among the events of a trace.\<close>

fun is_upload :: "action \<Rightarrow> bool" where
  "is_upload (RcloneCopy p dest) = True"
| "is_upload _ = False"

fun is_compose_down :: "action \<Rightarrow> bool" where
  "is_compose_down (ComposeDown c p) = True"
| "is_compose_down _ = False"

fun is_compose_up :: "action \<Rightarrow> bool" where
  "is_compose_up (ComposeUp c p) = True"
| "is_compose_up _ = False"

section \<open>Properties of volume discovery\<close>

lemma is_host_path_str: "is_host_path (PStr s) = Inr (host_path_like s)"
  by (simp add: is_host_path_def host_path_like_def split: bool.splits)

lemma visit_mount_skipped:
  "skipped_mount v \<Longrightarrow> visit_mount top_volumes v named = Inr named"
  by (auto simp: skipped_mount_def visit_mount_def is_host_path_str
           split: option.splits pyval.splits)

lemma service_volumes_loop_append:
  "service_volumes_loop tv (vs1 @ vs2) named =
     (case service_volumes_loop tv vs1 named of
        Inl e \<Rightarrow> Inl e
      | Inr named' \<Rightarrow> service_volumes_loop tv vs2 named')"
  by (induction vs1 arbitrary: named) (auto split: sum.splits)

lemma service_volumes_loop_skip:
  "skipped_mount v \<Longrightarrow>
   service_volumes_loop tv (vs1 @ v # vs2) named = service_volumes_loop tv (vs1 @ vs2) named"
  by (simp add: service_volumes_loop_append visit_mount_skipped split: sum.splits)

lemma services_loop_append:
  "services_loop tv (ss1 @ ss2) named =
     (case services_loop tv ss1 named of
        Inl e \<Rightarrow> Inl e
      | Inr named' \<Rightarrow> services_loop tv ss2 named')"
  by (induction ss1 arbitrary: named) (auto split: sum.splits)

text \<open>
  Claim C1. A mount whose source contains \<^verbatim>\<open>/\<close> or starts with \<^verbatim>\<open>.\<close> or \<^verbatim>\<open>~\<close>, and an
  entry with no source (empty string, missing \<^verbatim>\<open>source\<close>, neither a string nor a mapping),
  is skipped whatever the top-level volume definitions are: visiting it raises nothing and
  leaves the set of names as it was, the loop over a service's mounts gives the same result
  with and without it, and so does the whole of \<open>extract_named_volumes\<close> on a descriptor
  \<open>d\<close> and on the descriptor \<open>d'\<close> that differs from it by the removal of this one mount.
\<close>

theorem skipped_mounts_do_not_contribute:
  assumes skip: "skipped_mount v"
    and d: "map_of d (PStr ''services'') = Some (PDict (svcs1 @ (n, PDict sd) # svcs2))"
    and d': "map_of d' (PStr ''services'') = Some (PDict (svcs1 @ (n, PDict sd') # svcs2))"
    and tv: "map_of d' (PStr ''volumes'') = map_of d (PStr ''volumes'')"
    and sd: "map_of sd (PStr ''volumes'') = Some (PList (vs1 @ v # vs2))"
    and sd': "map_of sd' (PStr ''volumes'') = Some (PList (vs1 @ vs2))"
  shows "visit_mount top_volumes v named = Inr named \<and>
         service_volumes_loop top_volumes (vs1 @ v # vs2) named =
           service_volumes_loop top_volumes (vs1 @ vs2) named \<and>
         extract_named_volumes (PDict d) = extract_named_volumes (PDict d')"
proof -
  have ne: "d \<noteq> []" "d' \<noteq> []" "sd \<noteq> []" "sd' \<noteq> []"
    using d d' sd sd' by auto
  have svc: "visit_service t (PDict sd) acc = visit_service t (PDict sd') acc" for t acc
    using ne sd sd' skip
    by (simp add: visit_service_def or_empty_dict_def service_volumes_loop_skip)
  have loop: "services_loop t (map snd svcs1 @ PDict sd # map snd svcs2) acc =
              services_loop t (map snd svcs1 @ PDict sd' # map snd svcs2) acc" for t acc
    by (simp add: services_loop_append svc split: sum.splits)
  have "extract_named_volumes (PDict d) = extract_named_volumes (PDict d')"
    using ne d d' tv
    by (simp add: extract_named_volumes_def or_empty_dict_def loop)
  then show ?thesis
    using skip by (simp add: visit_mount_skipped service_volumes_loop_skip)
qed

theorem skipped_mounts_do_not_contribute_witness:
  "skipped_mount (PStr ''./conf:/etc/conf'') \<and>
   visit_mount (PDict [(PStr ''./conf'', PDict [(PStr ''name'', PStr ''conf'')])])
     (PStr ''./conf:/etc/conf'') [] = Inr [] \<and>
   extract_named_volumes
     (PDict [(PStr ''services'', PDict [(PStr ''db'', PDict [(PStr ''volumes'',
         PList [PStr ''dbdata:/var/lib/db'', PStr ''./conf:/etc/conf''])])]),
       (PStr ''volumes'', PDict [(PStr ''./conf'', PDict [(PStr ''name'', PStr ''conf'')])])]) =
   extract_named_volumes
     (PDict [(PStr ''services'', PDict [(PStr ''db'', PDict [(PStr ''volumes'',
         PList [PStr ''dbdata:/var/lib/db''])])]),
       (PStr ''volumes'', PDict [(PStr ''./conf'', PDict [(PStr ''name'', PStr ''conf'')])])])"
proof -
  have s: "skipped_mount (PStr ''./conf:/etc/conf'')"
    by (simp add: skipped_mount_def host_path_like_def)
  show ?thesis
    using s skipped_mounts_do_not_contribute [OF s, where
      d = "[(PStr ''services'', PDict [(PStr ''db'', PDict [(PStr ''volumes'',
               PList [PStr ''dbdata:/var/lib/db'', PStr ''./conf:/etc/conf''])])]),
            (PStr ''volumes'', PDict [(PStr ''./conf'', PDict [(PStr ''name'', PStr ''conf'')])])]"
      and d' = "[(PStr ''services'', PDict [(PStr ''db'', PDict [(PStr ''volumes'',
               PList [PStr ''dbdata:/var/lib/db''])])]),
            (PStr ''volumes'', PDict [(PStr ''./conf'', PDict [(PStr ''name'', PStr ''conf'')])])]"
      and ?svcs1.0 = "[]" and ?svcs2.0 = "[]" and n = "PStr ''db''"
      and sd = "[(PStr ''volumes'',
               PList [PStr ''dbdata:/var/lib/db'', PStr ''./conf:/etc/conf''])]"
      and sd' = "[(PStr ''volumes'', PList [PStr ''dbdata:/var/lib/db''])]"
      and ?vs1.0 = "[PStr ''dbdata:/var/lib/db'']" and ?vs2.0 = "[]"
      and top_volumes = "PDict [(PStr ''./conf'', PDict [(PStr ''name'', PStr ''conf'')])]"
      and named = "[]"]
    by simp
qed

















text \<open>
  A surviving key never looks like a host path. A name of the result that does is
  therefore the explicit external name of a volume that some service mounts by its key.
\<close>

lemma surviving_keys_not_host_paths:
  assumes "k \<in> set (surviving_keys data)"
  shows "\<not> host_path_like k"
proof -
  from assms obtain v where "surviving_key v = Some k"
    by (auto simp: surviving_keys_def List.map_filter_def)
  then show ?thesis
    by (auto simp: surviving_key_def split: option.splits pyval.splits if_splits)
qed

lemma host_path_in_result_is_external_name:
  assumes "s \<in> resolved_names data" "host_path_like s"
  shows "\<exists>k \<in> set (surviving_keys data).
           external_name (descriptor_volumes data) k = Some (PStr s)"
proof -
  from assms(1) obtain k where k: "k \<in> set (surviving_keys data)"
    "s = resolved_name (descriptor_volumes data) k"
    by (auto simp: resolved_names_def)
  then have "s \<noteq> k" using surviving_keys_not_host_paths assms(2) by blast
  then have "external_name (descriptor_volumes data) k = Some (PStr s)"
    using k(2) by (auto simp: resolved_name_def split: option.splits pyval.splits)
  then show ?thesis using k(1) by blast
qed

section \<open>Properties of the retention\<close>

lemma is_backup_dict:
  "is_backup (PDict kvs) = Inr (is_archive_entry (PDict kvs))"
proof (cases "map_of kvs (PStr ''Path'')")
  case None
  then show ?thesis
    by (simp add: is_backup_def is_archive_entry_def is_directory_entry_def entry_name_def
          entry_field_def split: option.splits)
next
  case (Some p)
  then show ?thesis
    by (cases p)
       (simp_all add: is_backup_def is_archive_entry_def is_directory_entry_def entry_name_def
          entry_field_def split: option.splits)
qed

lemma archive_entry_is_backup:
  assumes "is_archive_entry entry"
  shows "is_backup entry = Inr True"
proof -
  obtain kvs where "entry = PDict kvs"
    using assms
    by (cases entry)
       (auto simp: is_archive_entry_def entry_name_def entry_field_def)
  then show ?thesis using assms by (simp add: is_backup_dict)
qed

lemma filter_backups_dicts:
  "list_all is_dict entries \<Longrightarrow> filter_backups entries = Inr (archive_entries entries)"
proof (induction entries)
  case Nil
  then show ?case by (simp add: archive_entries_def)
next
  case (Cons entry entries)
  then obtain kvs where "entry = PDict kvs" by (cases entry) auto
  then have "is_backup entry = Inr (is_archive_entry entry)" by (simp add: is_backup_dict)
  then show ?case using Cons by (auto simp: archive_entries_def)
qed

lemma mod_time_keys_ok:
  "list_all (key_is parse b) backups \<Longrightarrow>
   \<exists>ks. mod_time_keys parse backups = Inr ks \<and> length ks = length backups \<and>
        (\<forall>k \<in> set ks. is_naive k = b) \<and>
        map instant ks = map (mod_instant parse) backups"
proof (induction backups)
  case Nil
  then show ?case by simp
next
  case (Cons entry backups)
  then show ?case
    by (auto simp: key_is_def mod_instant_def split: sum.splits)
qed

lemma insort_key_snd:
  assumes "\<forall>p \<in> set ps. f (fst p) = g (snd p)" "f k = g x"
  shows "map snd (insort_key (\<lambda>(k, x). f k) (k, x) ps) = insort_key g x (map snd ps)"
  using assms by (induction ps) (auto simp: case_prod_beta)

lemma set_insort_key_pairs:
  "set (insort_key h p ps) = insert p (set ps)"
  by (simp add: set_insort_key)

lemma sort_key_zip:
  assumes "length ks = length xs" "map f ks = map g xs"
  shows "map snd (sort_key (\<lambda>(k, x). f k) (zip ks xs)) = sort_key g xs \<and>
         (\<forall>p \<in> set (sort_key (\<lambda>(k, x). f k) (zip ks xs)). f (fst p) = g (snd p))"
  using assms
proof (induction ks xs rule: list_induct2)
  case Nil
  then show ?case by simp
next
  case (Cons k ks x xs)
  then have IH: "map snd (sort_key (\<lambda>(k, x). f k) (zip ks xs)) = sort_key g xs"
    "\<forall>p \<in> set (sort_key (\<lambda>(k, x). f k) (zip ks xs)). f (fst p) = g (snd p)"
    and kx: "f k = g x" by auto
  show ?case
    using insort_key_snd [OF IH(2) kx] IH kx by (auto simp: set_insort_key)
qed

lemma sort_backups_ok:
  assumes "comparable_keys parse backups"
  shows "sort_backups parse backups = Inr (sort_key (mod_instant parse) backups)"
proof -
  from assms obtain b where "list_all (key_is parse b) backups"
    by (auto simp: comparable_keys_def)
  from mod_time_keys_ok [OF this] obtain ks where
    ks: "mod_time_keys parse backups = Inr ks" "length ks = length backups"
      "\<forall>k \<in> set ks. is_naive k = b" "map instant ks = map (mod_instant parse) backups"
    by blast
  have "\<not> ((\<exists>k \<in> set ks. is_naive k) \<and> (\<exists>k \<in> set ks. \<not> is_naive k))"
    using ks(3) by auto
  then show ?thesis
    using ks(1) sort_key_zip [OF ks(2) ks(4)] by (simp add: sort_backups_def)
qed

lemma backups_to_delete_ok:
  assumes "1 \<le> keep" "list_all is_dict entries"
    "comparable_keys parse (archive_entries entries)"
  shows "backups_to_delete parse keep entries = Inr (expected_deleted parse keep entries)"
  using assms
  by (auto simp: backups_to_delete_def filter_backups_dicts sort_backups_ok
        expected_deleted_def sorted_archives_def)

lemma is_backup_rel_path:
  assumes "is_backup entry = Inr True"
  shows "py_get entry ''Path'' PNone = Inr (rel_path_of entry) \<and> truthy (rel_path_of entry)"
proof -
  obtain kvs where e: "entry = PDict kvs"
    using assms by (cases entry) (auto simp: is_backup_def)
  have "str_endswith (case map_of kvs (PStr ''Path'') of None \<Rightarrow> PStr [] | Some v \<Rightarrow> v) ''.zip''"
    using assms e by (auto simp: is_backup_def split: if_splits)
  then obtain s where "map_of kvs (PStr ''Path'') = Some (PStr s)" "suffix ''.zip'' s"
    by (cases "map_of kvs (PStr ''Path'')"; cases "the (map_of kvs (PStr ''Path''))")
       (auto simp: suffix_def)
  then show ?thesis using e by (auto simp: rel_path_of_def suffix_def)
qed

lemma delete_loop_ok:
  assumes ok: "\<forall>i d r. cmd_result env i (RcloneDeletefile d r) = None"
  shows "\<forall>entry \<in> set es. is_backup entry = Inr True \<Longrightarrow>
     delete_loop env dir es w = (None, w\<lparr>trace := trace w @ delete_events dir es\<rparr>)"
proof (induction es arbitrary: w)
  case Nil
  then show ?case by (simp add: delete_events_def)
next
  case (Cons entry es)
  then have p: "py_get entry ''Path'' PNone = Inr (rel_path_of entry)"
      "truthy (rel_path_of entry)"
    using is_backup_rel_path [of entry] by auto
  have run: "run_cmd env (RcloneDeletefile dir (rel_path_of entry)) w =
      (None, w\<lparr>trace := trace w @ [(RcloneDeletefile dir (rel_path_of entry), None)]\<rparr>)"
    using ok by (simp add: run_cmd_def perform_def)
  show ?case
    using Cons p by (simp add: run delete_events_def)
qed

lemma set_sorted_archives:
  "set (sorted_archives parse entries) = set (archive_entries entries)"
  by (simp add: sorted_archives_def)

text \<open>
  The retention on a listing whose time stamps can be compared. The listing is first
  restricted to its archive entries (no directory, name ending in \<^verbatim>\<open>.zip\<close>). When every
  entry is an object, the modification times of the archives can be compared with each
  other and the delete commands succeed, the rotation returns normally after one listing
  and one delete command per archive of \<open>expected_deleted\<close>, in that order. The deleted and the retained archives together are the archives of the
  listing; in that order they are sorted by modification time, so the deleted ones are the
  oldest and are deleted oldest first. With at most \<open>keep\<close> archives nothing is deleted; with
  \<open>n > keep\<close> archives exactly \<open>n - keep\<close> are deleted and \<open>keep\<close> retained.
\<close>

lemma rotation_on_comparable_listing:
  assumes keep: "1 \<le> keep"
    and listing: "lsjson_result env (length (trace w)) (remote_target remote remote_path) =
        Inr (PList entries)"
    and dicts: "list_all is_dict entries"
    and keys: "comparable_keys (fromisoformat env) (archive_entries entries)"
    and deletes: "\<forall>i d r. cmd_result env i (RcloneDeletefile d r) = None"
  shows "rotate_project_backups env remote remote_path keep w =
           (None, w\<lparr>trace := trace w @
              (RcloneLsjson (remote_target remote remote_path), None) #
              delete_events (delete_dir remote remote_path)
                (expected_deleted (fromisoformat env) keep entries)\<rparr>) \<and>
         mset (expected_deleted (fromisoformat env) keep entries) +
           mset (expected_retained (fromisoformat env) keep entries) =
           mset (archive_entries entries) \<and>
         sorted (map (mod_instant (fromisoformat env))
           (expected_deleted (fromisoformat env) keep entries @
            expected_retained (fromisoformat env) keep entries)) \<and>
         (int (length (archive_entries entries)) \<le> keep \<longrightarrow>
            expected_deleted (fromisoformat env) keep entries = []) \<and>
         (keep < int (length (archive_entries entries)) \<longrightarrow>
            int (length (expected_deleted (fromisoformat env) keep entries)) =
              int (length (archive_entries entries)) - keep \<and>
            int (length (expected_retained (fromisoformat env) keep entries)) = keep) \<and>
         (\<forall>d \<in> set (expected_deleted (fromisoformat env) keep entries).
          \<forall>r \<in> set (expected_retained (fromisoformat env) keep entries).
            mod_instant (fromisoformat env) d \<le> mod_instant (fromisoformat env) r)"
proof -
  let ?parse = "fromisoformat env"
  let ?del = "expected_deleted ?parse keep entries"
  let ?ret = "expected_retained ?parse keep entries"
  let ?srt = "sorted_archives ?parse entries"
  have app: "?del @ ?ret = ?srt"
    by (simp add: expected_deleted_def expected_retained_def)
  have len: "length ?srt = length (archive_entries entries)"
    by (simp add: sorted_archives_def)
  have srt: "sorted (map (mod_instant ?parse) ?srt)"
    by (simp add: sorted_archives_def)
  have "\<forall>entry \<in> set ?del. is_backup entry = Inr True"
  proof
    fix entry assume "entry \<in> set ?del"
    then have "entry \<in> set ?srt" unfolding expected_deleted_def by (rule in_set_takeD)
    then show "is_backup entry = Inr True"
      by (simp add: set_sorted_archives archive_entries_def archive_entry_is_backup)
  qed
  from delete_loop_ok [OF deletes this]
  have run: "rotate_project_backups env remote remote_path keep w =
           (None, w\<lparr>trace := trace w @
              (RcloneLsjson (remote_target remote remote_path), None) #
              delete_events (delete_dir remote remote_path) ?del\<rparr>)"
    using keep listing backups_to_delete_ok [OF keep dicts keys]
    by (simp add: rotate_project_backups_def Let_def)
  have ms: "mset ?del + mset ?ret = mset (archive_entries entries)"
    using app by (metis mset_append mset_sort sorted_archives_def)
  have small: "int (length (archive_entries entries)) \<le> keep \<longrightarrow> ?del = []"
    by (auto simp: expected_deleted_def)
  have large: "keep < int (length (archive_entries entries)) \<longrightarrow>
      int (length ?del) = int (length (archive_entries entries)) - keep \<and>
      int (length ?ret) = keep"
    using keep len by (auto simp: expected_deleted_def expected_retained_def)
  have ord: "\<forall>d \<in> set ?del. \<forall>r \<in> set ?ret. mod_instant ?parse d \<le> mod_instant ?parse r"
    using srt unfolding app [symmetric] by (auto simp: sorted_append)
  show ?thesis
    using run ms srt small large ord unfolding app by blast
qed

lemma sample_keys:
  "map (mod_time_key sample_fromisoformat) sample_listing =
     [Inr (Aware 63839847600000000), Inr (Aware 63839674800000000),
      Inr (Aware 63840106800000000), Inr (Aware 63839588400000000),
      Inr (Aware 63839761200000000), Inr (Aware 63840020400000000),
      Inr (Aware 63839934000000000)]"
  by (simp add: sample_listing_def lsjson_entry_def mod_time_key_def parse_time_def
        replace_Z_def sample_fromisoformat_def)

lemma sample_archives:
  "archive_entries sample_listing =
     [lsjson_entry ''shop-20240103-030000.zip'' ''2024-01-03T03:00:00Z'',
      lsjson_entry ''shop-20240101-030000.zip'' ''2024-01-01T03:00:00Z'',
      lsjson_entry ''shop-20240106-030000.zip'' ''2024-01-06T03:00:00Z'',
      lsjson_entry ''shop-20240102-030000.zip'' ''2024-01-02T03:00:00Z'',
      lsjson_entry ''shop-20240105-030000.zip'' ''2024-01-05T03:00:00Z'',
      lsjson_entry ''shop-20240104-030000.zip'' ''2024-01-04T03:00:00Z'']"
  by (simp add: archive_entries_def sample_listing_def lsjson_entry_def is_archive_entry_def
        is_directory_entry_def entry_name_def entry_field_def suffix_def)

lemma sample_instant:
  "mod_instant sample_fromisoformat (lsjson_entry n (d @ ''Z'')) =
     (case sample_fromisoformat (replace_Z d @ ''+00:00'') of Some k \<Rightarrow> instant k | None \<Rightarrow> 0)"
  by (simp add: mod_instant_def mod_time_key_def lsjson_entry_def parse_time_def replace_Z_def
        datetime_min_def split: option.splits)

lemma sample_deleted:
  "expected_deleted sample_fromisoformat 4 sample_listing =
     [lsjson_entry ''shop-20240101-030000.zip'' ''2024-01-01T03:00:00Z'',
      lsjson_entry ''shop-20240102-030000.zip'' ''2024-01-02T03:00:00Z'']"
  using sample_instant [of _ "''2024-01-01T03:00:00''"]
        sample_instant [of _ "''2024-01-02T03:00:00''"]
        sample_instant [of _ "''2024-01-03T03:00:00''"]
        sample_instant [of _ "''2024-01-04T03:00:00''"]
        sample_instant [of _ "''2024-01-05T03:00:00''"]
        sample_instant [of _ "''2024-01-06T03:00:00''"]
  by (simp add: expected_deleted_def sorted_archives_def sample_archives replace_Z_def
        sample_fromisoformat_def)

lemma sample_comparable: "comparable_keys sample_fromisoformat (archive_entries sample_listing)"
  by (simp add: comparable_keys_def sample_archives key_is_def mod_time_key_def
        lsjson_entry_def parse_time_def replace_Z_def sample_fromisoformat_def)

lemma rotation_on_sample_listing:
  "rotate_project_backups sample_env ''remote'' ''backups/shop'' 4 \<lparr>fs = [], trace = []\<rparr> =
     (None, \<lparr>fs = [], trace =
        [(RcloneLsjson ''remote:backups/shop'', None),
         (RcloneDeletefile ''remote:backups/shop/'' (PStr ''shop-20240101-030000.zip''), None),
         (RcloneDeletefile ''remote:backups/shop/'' (PStr ''shop-20240102-030000.zip''), None)]\<rparr>)"
proof -
  have 1: "(1::int) \<le> 4" by simp
  have 2: "lsjson_result sample_env (length (trace \<lparr>fs = [], trace = []\<rparr>))
      (remote_target ''remote'' ''backups/shop'') = Inr (PList sample_listing)"
    by (simp add: sample_env_def)
  have 3: "list_all is_dict sample_listing"
    by (simp add: sample_listing_def lsjson_entry_def)
  have 4: "comparable_keys (fromisoformat sample_env) (archive_entries sample_listing)"
    using sample_comparable by (simp add: sample_env_def)
  have 5: "\<forall>i d r. cmd_result sample_env i (RcloneDeletefile d r) = None"
    by (simp add: sample_env_def)
  have f: "fromisoformat sample_env = sample_fromisoformat" by (simp add: sample_env_def)
  show ?thesis
    using rotation_on_comparable_listing [OF 1 2 3 4 5]
    by (simp add: f sample_deleted delete_events_def rel_path_of_def lsjson_entry_def
          remote_target_def delete_dir_def rstrip_slash_def)
qed

text \<open>
  Claim C3, where the code departs from it. The claim is about every remote listing. On
  \<open>undated_listing\<close> with \<open>keep = 2\<close> the entries that are no directory and end in \<^verbatim>\<open>.zip\<close>
  are three, one more than \<open>keep\<close>, and the oldest of them by modification time is the one
  without a time stamp, so the claim has exactly that one deleted. The code raises
  \<^verbatim>\<open>TypeError\<close> in the sort of line 242, after the listing, and runs no delete command: the
  key of the entry without a time stamp is the naive \<^verbatim>\<open>datetime.min\<close>, the keys of the other
  two are aware.
\<close>

theorem rotation_deletes_nothing_with_undated_archive:
  "list_all is_dict undated_listing \<and>
   map entry_name (archive_entries undated_listing) =
     [Some ''shop-20240102-030000.zip'', Some ''shop-undated.zip'',
      Some ''shop-20240101-030000.zip''] \<and>
   map entry_name (expected_deleted (fromisoformat undated_env) 2 undated_listing) =
     [Some ''shop-undated.zip''] \<and>
   map (mod_time_key (fromisoformat undated_env)) (archive_entries undated_listing) =
     [Inr (Aware 63839761200000000), Inr (Naive 0), Inr (Aware 63839674800000000)] \<and>
   rotate_project_backups undated_env ''remote'' ''backups/shop'' 2 \<lparr>fs = [], trace = []\<rparr> =
     (Some TypeError, \<lparr>fs = [], trace = [(RcloneLsjson ''remote:backups/shop'', None)]\<rparr>)"
  by code_simp

lemma mod_time_keys_all:
  "\<forall>entry \<in> set backups. \<exists>k. mod_time_key parse entry = Inr k \<Longrightarrow>
   \<exists>ks. mod_time_keys parse backups = Inr ks \<and>
        (\<forall>entry \<in> set backups. \<forall>k. mod_time_key parse entry = Inr k \<longrightarrow> k \<in> set ks)"
proof (induction backups)
  case Nil
  then show ?case by simp
next
  case (Cons entry backups)
  then obtain k ks where "mod_time_key parse entry = Inr k"
    "mod_time_keys parse backups = Inr ks"
    "\<forall>entry \<in> set backups. \<forall>k. mod_time_key parse entry = Inr k \<longrightarrow> k \<in> set ks"
    by auto
  then show ?case by auto
qed

text \<open>
  Claim C4, where the code departs from it. \<^verbatim>\<open>_parse_time\<close> gives the naive
  \<^verbatim>\<open>datetime.min\<close> for a missing or unparseable time stamp, and an RFC3339 time stamp
  parses to an aware value. When the archives of a listing hold one entry of each kind, the
  sort of line 242 raises \<^verbatim>\<open>TypeError\<close>: the rotation fails after the listing and deletes
  nothing, whatever \<open>keep\<close> is.
\<close>

theorem rotation_raises_on_missing_and_valid_timestamps:
  assumes keep: "1 \<le> keep"
    and listing: "lsjson_result env (length (trace w)) (remote_target remote remote_path) =
        Inr (PList entries)"
    and dicts: "list_all is_dict entries"
    and keys: "\<forall>entry \<in> set (archive_entries entries).
        \<exists>k. mod_time_key (fromisoformat env) entry = Inr k"
    and e1: "e1 \<in> set (archive_entries entries)" "py_get e1 ''ModTime'' PNone = Inr m"
        "\<not> truthy m"
    and e2: "e2 \<in> set (archive_entries entries)" "py_get e2 ''ModTime'' PNone = Inr (PStr t)"
        "t \<noteq> []" "fromisoformat env (replace_Z t) = Some (Aware a)"
  shows "rotate_project_backups env remote remote_path keep w =
           (Some TypeError,
            w\<lparr>trace := trace w @ [(RcloneLsjson (remote_target remote remote_path), None)]\<rparr>)"
proof -
  let ?parse = "fromisoformat env"
  from mod_time_keys_all [OF keys] obtain ks where
    ks: "mod_time_keys ?parse (archive_entries entries) = Inr ks"
      "\<forall>entry \<in> set (archive_entries entries).
         \<forall>k. mod_time_key ?parse entry = Inr k \<longrightarrow> k \<in> set ks"
    by blast
  have "mod_time_key ?parse e1 = Inr (Naive 0)"
    using e1 by (simp add: mod_time_key_def parse_time_def datetime_min_def)
  then have n: "Naive 0 \<in> set ks" using ks(2) e1(1) by blast
  have "mod_time_key ?parse e2 = Inr (Aware a)"
    using e2 by (simp add: mod_time_key_def parse_time_def)
  then have a: "Aware a \<in> set ks" using ks(2) e2(1) by blast
  have "(\<exists>k \<in> set ks. is_naive k) \<and> (\<exists>k \<in> set ks. \<not> is_naive k)"
    using n a by force
  then have "sort_backups ?parse (archive_entries entries) = Inl TypeError"
    using ks(1) by (simp add: sort_backups_def)
  then have "backups_to_delete ?parse keep entries = Inl TypeError"
    using dicts by (simp add: backups_to_delete_def filter_backups_dicts)
  then show ?thesis
    using keep listing by (simp add: rotate_project_backups_def Let_def)
qed

theorem rotation_raises_on_missing_and_valid_timestamps_witness:
  "rotate_project_backups
     (sample_env\<lparr>lsjson_result := (\<lambda>n target. Inr (PList mixed_listing))\<rparr>)
     ''remote'' ''backups/shop'' 1 \<lparr>fs = [], trace = []\<rparr> =
     (Some TypeError, \<lparr>fs = [], trace = [(RcloneLsjson ''remote:backups/shop'', None)]\<rparr>)"
proof -
  let ?env = "sample_env\<lparr>lsjson_result := (\<lambda>n target. Inr (PList mixed_listing))\<rparr>"
  let ?e1 = "PDict [(PStr ''Path'', PStr ''shop-old.zip''), (PStr ''IsDir'', PBool False)]"
  let ?e2 = "lsjson_entry ''shop-20240101-030000.zip'' ''2024-01-01T03:00:00Z''"
  have ar: "archive_entries mixed_listing = [?e1, ?e2]"
    by (simp add: archive_entries_def mixed_listing_def lsjson_entry_def is_archive_entry_def
          is_directory_entry_def entry_name_def entry_field_def suffix_def)
  have 1: "(1::int) \<le> 1" by simp
  have 2: "lsjson_result ?env (length (trace \<lparr>fs = [], trace = []\<rparr>))
      (remote_target ''remote'' ''backups/shop'') = Inr (PList mixed_listing)"
    by simp
  have 3: "list_all is_dict mixed_listing"
    by (simp add: mixed_listing_def lsjson_entry_def)
  have 4: "\<forall>entry \<in> set (archive_entries mixed_listing).
      \<exists>k. mod_time_key (fromisoformat ?env) entry = Inr k"
    by (simp add: ar mod_time_key_def parse_time_def lsjson_entry_def)
  have 5: "?e1 \<in> set (archive_entries mixed_listing)" by (simp add: ar)
  have 6: "py_get ?e1 ''ModTime'' PNone = Inr PNone" by simp
  have 7: "\<not> truthy PNone" by simp
  have 8: "?e2 \<in> set (archive_entries mixed_listing)" by (simp add: ar)
  have 9: "py_get ?e2 ''ModTime'' PNone = Inr (PStr ''2024-01-01T03:00:00Z'')"
    by (simp add: lsjson_entry_def)
  have 10: "''2024-01-01T03:00:00Z'' \<noteq> []" by simp
  have 11: "fromisoformat ?env (replace_Z ''2024-01-01T03:00:00Z'') =
      Some (Aware 63839674800000000)"
    by (simp add: sample_env_def sample_fromisoformat_def replace_Z_def)
  show ?thesis
    using rotation_raises_on_missing_and_valid_timestamps [OF 1 2 3 4 5 6 7 8 9 10 11]
    by (simp add: remote_target_def)
qed

section \<open>Properties of a run\<close>

lemma perform_eq:
  "perform env a eff w = (r, w') \<Longrightarrow>
   r = cmd_result env (length (trace w)) a \<and> trace w' = trace w @ [(a, r)] \<and>
   fs w' = (if r = None then eff (fs w) else fs w)"
  by (auto simp: perform_def Let_def)

lemma refuse_eq:
  "refuse a e w = (r, w') \<Longrightarrow> r = Some e \<and> trace w' = trace w @ [(a, Some e)] \<and> fs w' = fs w"
  by (auto simp: refuse_def)

lemma run_cmd_eq:
  "run_cmd env a w = (r, w') \<Longrightarrow> trace w' = trace w @ [(a, r)] \<and> fs w' = fs w"
  by (auto simp: run_cmd_def dest: perform_eq)

lemma mkdir_eq:
  "mkdir env p w = (r, w') \<Longrightarrow> trace w' = trace w @ [(Mkdir p, r)] \<and>
     (r = None \<longrightarrow> \<not> path_exists (fs w) p \<and> fs w' = fs_add p Dir (fs w))"
  by (auto simp: mkdir_def dest: perform_eq refuse_eq split: if_splits)

lemma move_eq:
  "move env src dst w = (r, w') \<Longrightarrow> trace w' = trace w @ [(Move src dst, r)]"
  by (auto simp: move_def dest: perform_eq refuse_eq split: if_splits)

lemma rmtree_eq:
  "rmtree env p w = (r, w') \<Longrightarrow> trace w' = trace w @ [(Rmtree p, r)]"
  by (auto simp: rmtree_def Let_def dest: refuse_eq split: if_splits)

text \<open>
  A project whose tree archive would be moved below itself is refused by \<^verbatim>\<open>shutil.move\<close>; a
  failed \<^verbatim>\<open>shutil.rmtree\<close> leaves the staging directory in place and touches nothing outside
  it.
\<close>

lemma move_below_itself_is_refused:
  assumes "path_exists (fs w) src" "prefix src dst" "src \<noteq> dst"
  shows "move env src dst w = (Some OSError, w\<lparr>trace := trace w @ [(Move src dst, Some OSError)]\<rparr>)"
  using assms by (simp add: move_def refuse_def)

lemma failed_rmtree_keeps_outside:
  assumes "rmtree env p w = (Some e, w')"
  shows "path_exists (fs w') p = path_exists (fs w) p \<and>
         filter (\<lambda>(q, k). \<not> prefix p q) (fs w') = filter (\<lambda>(q, k). \<not> prefix p q) (fs w)"
proof (cases "path_exists (fs w) p")
  case False
  then show ?thesis using assms by (auto simp: rmtree_def refuse_def)
next
  case True
  then have f: "fs w' = fs_rmtree_partial p (rmtree_removed env (length (trace w)) p) (fs w)"
    using assms by (auto simp: rmtree_def Let_def split: if_splits)
  have "p \<in> fst ` set (fs w')"
    using True unfolding f by (force simp: path_exists_def map_of_eq_None_iff fs_rmtree_partial_def)
  then have "path_exists (fs w') p" by (simp add: path_exists_def map_of_eq_None_iff)
  moreover have "filter (\<lambda>(q, k). \<not> prefix p q) (fs w') = filter (\<lambda>(q, k). \<not> prefix p q) (fs w)"
    unfolding f fs_rmtree_partial_def by (auto intro: filter_cong)
  ultimately show ?thesis using True by simp
qed

lemma unlink_eq:
  "unlink env p w = (r, w') \<Longrightarrow> trace w' = trace w @ [(Unlink p, r)]"
  by (auto simp: unlink_def dest: perform_eq refuse_eq split: if_splits)

lemma rclone_copy_file_eq:
  "rclone_copy_file env p remote remote_path w = (r, w') \<Longrightarrow>
     trace w' = trace w @ [(RcloneCopy p (remote_target remote remote_path), r)]"
  by (auto simp: rclone_copy_file_def Let_def dest: run_cmd_eq refuse_eq split: if_splits)

lemma quiet_simps [simp]:
  "quiet []"
  "quiet (ev # evs) = (\<not> is_cleanup (fst ev) \<and> \<not> is_rotation (fst ev) \<and> quiet evs)"
  "quiet (evs @ evs') = (quiet evs \<and> quiet evs')"
  by (auto simp: quiet_def)

lemma export_volume_events:
  "export_volume env v t ts w = (r, w') \<Longrightarrow> \<exists>evs. trace w' = trace w @ evs \<and> quiet evs"
  by (auto simp: export_volume_def Let_def dest!: perform_eq split: prod.splits option.splits)

lemma export_volumes_events:
  "export_volumes env vs t ts w = (r, w') \<Longrightarrow> \<exists>evs. trace w' = trace w @ evs \<and> quiet evs"
proof (induction vs arbitrary: w r w')
  case Nil
  then show ?case by simp
next
  case (Cons v vs)
  obtain r1 w1 where 1: "export_volume env v t ts w = (r1, w1)" by (cases "export_volume env v t ts w")
  from export_volume_events [OF 1] obtain evs1 where
    e1: "trace w1 = trace w @ evs1" "quiet evs1" by blast
  show ?case
  proof (cases r1)
    case (Inl e)
    then show ?thesis using Cons.prems 1 e1 by auto
  next
    case (Inr p)
    obtain r2 w2 where 2: "export_volumes env vs t ts w1 = (r2, w2)"
      by (cases "export_volumes env vs t ts w1")
    from Cons.IH [OF 2] obtain evs2 where "trace w2 = trace w1 @ evs2" "quiet evs2" by blast
    then have "trace w2 = trace w @ (evs1 @ evs2) \<and> quiet (evs1 @ evs2)" using e1 by simp
    moreover have "w' = w2" using Cons.prems 1 2 Inr by (auto split: sum.splits)
    ultimately show ?thesis by blast
  qed
qed

lemma snapshot_volumes_events:
  assumes "snapshot_volumes env pd t ts vs dc w = (r, w')"
  shows "\<exists>evs. trace w' = trace w @ evs \<and> quiet evs"
proof -
  obtain r1 w1 where 1: "run_cmd env (ComposeDown dc pd) w = (r1, w1)"
    by (cases "run_cmd env (ComposeDown dc pd) w")
  note e1 = run_cmd_eq [OF 1]
  show ?thesis
  proof (cases r1)
    case (Some e)
    then show ?thesis using assms 1 e1 by (auto simp: snapshot_volumes_def)
  next
    case None
    obtain r2 w2 where 2: "export_volumes env vs t ts w1 = (r2, w2)"
      by (cases "export_volumes env vs t ts w1")
    from export_volumes_events [OF 2] obtain evs2 where
      e2: "trace w2 = trace w1 @ evs2" "quiet evs2" by blast
    show ?thesis
    proof (cases r2)
      case (Inl e)
      then show ?thesis using assms 1 2 None e1 e2 by (auto simp: snapshot_volumes_def)
    next
      case (Inr ps)
      then have 3: "run_cmd env (ComposeUp dc pd) w2 = (r, w')"
        using assms 1 2 None by (simp add: snapshot_volumes_def)
      from run_cmd_eq [OF 3] e1 e2
      have "trace w' = trace w @ ((ComposeDown dc pd, r1) # evs2 @ [(ComposeUp dc pd, r)])"
        by simp
      moreover have "quiet ((ComposeDown dc pd, r1) # evs2 @ [(ComposeUp dc pd, r)])"
        using e2 by simp
      ultimately show ?thesis by blast
    qed
  qed
qed

lemma delete_loop_events:
  "delete_loop env dir es w = (r, w') \<Longrightarrow>
     \<exists>evs. trace w' = trace w @ evs \<and> (\<forall>ev \<in> set evs. is_rotation (fst ev))"
proof (induction es arbitrary: w r w')
  case Nil
  then show ?case by simp
next
  case (Cons entry es)
  show ?case
  proof (cases "py_get entry ''Path'' PNone")
    case (Inl e)
    then show ?thesis using Cons.prems by simp
  next
    case (Inr p)
    show ?thesis
    proof (cases "if truthy p then Inr p else py_get entry ''Name'' PNone")
      case (Inl e)
      then show ?thesis using Cons.prems Inr by simp
    next
      case rel: (Inr rel_path)
      show ?thesis
      proof (cases "truthy rel_path")
        case False
        then have "delete_loop env dir es w = (r, w')" using Cons.prems Inr rel by simp
        then show ?thesis by (rule Cons.IH)
      next
        case True
        obtain r1 w1 where 1: "run_cmd env (RcloneDeletefile dir rel_path) w = (r1, w1)"
          by (cases "run_cmd env (RcloneDeletefile dir rel_path) w")
        note e1 = run_cmd_eq [OF 1]
        show ?thesis
        proof (cases r1)
          case (Some e)
          then show ?thesis using Cons.prems Inr rel True 1 e1 by auto
        next
          case None
          then have "delete_loop env dir es w1 = (r, w')"
            using Cons.prems Inr rel True 1 by simp
          from Cons.IH [OF this] obtain evs where
            "trace w' = trace w1 @ evs" "\<forall>ev \<in> set evs. is_rotation (fst ev)" by blast
          then have "trace w' = trace w @ ((RcloneDeletefile dir rel_path, r1) # evs) \<and>
              (\<forall>ev \<in> set ((RcloneDeletefile dir rel_path, r1) # evs). is_rotation (fst ev))"
            using e1 by simp
          then show ?thesis by blast
        qed
      qed
    qed
  qed
qed

lemma rotate_events:
  assumes "rotate_project_backups env remote remote_path keep w = (r, w')"
  shows "\<exists>evs. trace w' = trace w @ evs \<and> (\<forall>ev \<in> set evs. is_rotation (fst ev))"
proof (cases "keep < 1")
  case True
  then show ?thesis using assms by (simp add: rotate_project_backups_def)
next
  case False
  let ?t = "remote_target remote remote_path"
  let ?l = "lsjson_result env (length (trace w)) ?t"
  let ?w1 = "w\<lparr>trace := trace w @
      [(RcloneLsjson ?t, case ?l of Inl e \<Rightarrow> Some e | Inr j \<Rightarrow> None)]\<rparr>"
  have one: "\<exists>evs. trace ?w1 = trace w @ evs \<and> (\<forall>ev \<in> set evs. is_rotation (fst ev))"
    by simp
  show ?thesis
  proof (cases "\<exists>j entries to_delete. ?l = Inr j \<and> py_iter j = Inr entries \<and>
      backups_to_delete (fromisoformat env) keep entries = Inr to_delete")
    case True
    then obtain j entries to_delete where
      "?l = Inr j" "py_iter j = Inr entries"
      "backups_to_delete (fromisoformat env) keep entries = Inr to_delete" by blast
    then have "delete_loop env (delete_dir remote remote_path) to_delete ?w1 = (r, w')"
      using assms False by (simp add: rotate_project_backups_def Let_def)
    from delete_loop_events [OF this] obtain evs where
      "trace w' = trace ?w1 @ evs" "\<forall>ev \<in> set evs. is_rotation (fst ev)" by blast
    then show ?thesis by auto
  next
    case no: False
    then have "w' = ?w1"
      using assms False
      by (auto simp: rotate_project_backups_def Let_def split: sum.splits)
    then show ?thesis using one by simp
  qed
qed

lemma cleanup_and_rotate_events:
  assumes "cleanup_and_rotate env t z remote remote_path keep w = (r, w')"
  shows "\<exists>evs. trace w' = trace w @ evs \<and> fail_stop r evs"
proof -
  obtain r1 w1 where 1: "rmtree env t w = (r1, w1)" by (cases "rmtree env t w")
  note e1 = rmtree_eq [OF 1]
  show ?thesis
  proof (cases r1)
    case (Some e)
    then have "r = Some e" "w' = w1" using assms 1 by (auto simp: cleanup_and_rotate_def)
    then show ?thesis using e1 Some by (auto simp: fail_stop_def)
  next
    case None
    let ?u = "if path_exists (fs w1) z then unlink env z w1 else (None, w1)"
    obtain r2 w2 where 2: "?u = (r2, w2)" by (cases ?u)
    then have e2: "trace w2 = trace w1 \<or> trace w2 = trace w1 @ [(Unlink z, r2)]"
      "trace w2 = trace w1 \<longrightarrow> r2 = None"
      by (auto dest: unlink_eq split: if_splits)
    show ?thesis
    proof (cases r2)
      case (Some e)
      then have "r = Some e" "w' = w2"
        using assms 1 2 None by (auto simp: cleanup_and_rotate_def)
      moreover have "trace w2 = trace w @ [(Rmtree t, None), (Unlink z, Some e)]"
        using e1 e2 None Some by auto
      ultimately show ?thesis by (auto simp: fail_stop_def)
    next
      case n2: None
      then have "rotate_project_backups env remote remote_path keep w2 = (r, w')"
        using assms 1 2 None by (auto simp: cleanup_and_rotate_def)
      from rotate_events [OF this] obtain rot where
        rot: "trace w' = trace w2 @ rot" "\<forall>ev \<in> set rot. is_rotation (fst ev)" by blast
      have nc: "\<not> is_cleanup a" if "(a, x) \<in> set rot" for a x
        using rot(2) that by (cases a) auto
      from e2(1) show ?thesis
      proof
        assume "trace w2 = trace w1"
        then have "trace w' = trace w @ ((Rmtree t, None) # rot)"
          using e1 rot None by simp
        moreover have "fail_stop r ((Rmtree t, None) # rot)"
          using nc by (auto simp: fail_stop_def)
        ultimately show ?thesis by blast
      next
        assume "trace w2 = trace w1 @ [(Unlink z, r2)]"
        then have "trace w' = trace w @ ((Rmtree t, None) # (Unlink z, None) # rot)"
          using e1 rot None n2 by simp
        moreover have "fail_stop r ((Rmtree t, None) # (Unlink z, None) # rot)"
          using nc by (auto simp: fail_stop_def)
        ultimately show ?thesis by blast
      qed
    qed
  qed
qed

lemma fail_stop_quiet:
  assumes "quiet q" "fail_stop r c"
  shows "fail_stop r (q @ c)"
  unfolding fail_stop_def
proof (intro allI impI)
  fix a e assume h: "(a, Some e) \<in> set (q @ c) \<and> is_cleanup a"
  then have "(a, Some e) \<notin> set q" using assms(1) by (auto simp: quiet_def)
  then have c: "(a, Some e) \<in> set c" using h by auto
  then have "r = Some e" "last c = (a, Some e)" "\<forall>ev \<in> set c. \<not> is_rotation (fst ev)"
    using assms(2) h by (auto simp: fail_stop_def)
  moreover have "c \<noteq> []" using c by auto
  ultimately show "r = Some e \<and> last (q @ c) = (a, Some e) \<and>
      (\<forall>ev \<in> set (q @ c). \<not> is_rotation (fst ev))"
    using assms(1) by (auto simp: quiet_def)
qed

lemma fail_stop_of_quiet: "quiet q \<Longrightarrow> fail_stop r q"
  by (auto simp: fail_stop_def quiet_def)

lemma create_final_zip_events:
  "create_final_zip_from_temp env pd t ts w = (r, w') \<Longrightarrow>
     \<exists>evs. trace w' = trace w @ evs \<and> quiet evs"
  by (auto simp: create_final_zip_from_temp_def Let_def dest!: perform_eq
           split: prod.splits option.splits)

lemma backup_steps_shape:
  assumes "backup_steps env pd remote remote_path keep ts t w = (out, w')"
  shows "\<exists>q c. trace w' = trace w @ q @ c \<and> quiet q \<and> fail_stop (raised out) c \<and>
           (c \<noteq> [] \<longrightarrow> (\<exists>p d. (RcloneCopy p d, None) \<in> set q))"
proof (cases "discover env pd w")
  case (Inl e)
  then have "w' = w" using assms by (simp add: backup_steps_def)
  then have "trace w' = trace w @ [] @ []" by simp
  then show ?thesis using fail_stop_of_quiet quiet_simps(1) by blast
next
  case (Inr vd)
  obtain vols dc where vd: "vd = (vols, dc)" by (cases vd)
  obtain r1 w1 where 1: "snapshot_volumes env pd t ts vols dc w = (r1, w1)"
    by (cases "snapshot_volumes env pd t ts vols dc w")
  from snapshot_volumes_events [OF 1] obtain q1 where
    q1: "trace w1 = trace w @ q1" "quiet q1" by blast
  show ?thesis
  proof (cases r1)
    case (Some e)
    then have "w' = w1" using assms Inr vd 1 by (simp add: backup_steps_def)
    then have "trace w' = trace w @ q1 @ []" using q1 by simp
    then show ?thesis using q1(2) fail_stop_of_quiet quiet_simps(1) by blast
  next
    case None
    obtain r2 w2 where 2: "create_final_zip_from_temp env pd t ts w1 = (r2, w2)"
      by (cases "create_final_zip_from_temp env pd t ts w1")
    from create_final_zip_events [OF 2] obtain q2 where
      q2: "trace w2 = trace w1 @ q2" "quiet q2" by blast
    show ?thesis
    proof (cases r2)
      case (Inl e)
      then have "w' = w2" using assms Inr vd 1 None 2 by (simp add: backup_steps_def)
      then have "trace w' = trace w @ (q1 @ q2) @ []" "quiet (q1 @ q2)" using q1 q2 by auto
      then show ?thesis using fail_stop_of_quiet quiet_simps(1) by blast
    next
      case z: (Inr final_zip_path)
      obtain r3 w3 where 3: "rclone_copy_file env final_zip_path remote remote_path w2 = (r3, w3)"
        by (cases "rclone_copy_file env final_zip_path remote remote_path w2")
      let ?q = "q1 @ q2 @ [(RcloneCopy final_zip_path (remote_target remote remote_path), r3)]"
      have q3: "trace w3 = trace w @ ?q" "quiet ?q"
        using rclone_copy_file_eq [OF 3] q1 q2 by auto
      show ?thesis
      proof (cases r3)
        case (Some e)
        then have "w' = w3" using assms Inr vd 1 None 2 z 3 by (simp add: backup_steps_def)
        then have "trace w' = trace w @ ?q @ []" using q3 by simp
        then show ?thesis using q3(2) fail_stop_of_quiet quiet_simps(1) by blast
      next
        case n3: None
        obtain r4 w4 where
          4: "cleanup_and_rotate env t final_zip_path remote remote_path keep w3 = (r4, w4)"
          by (cases "cleanup_and_rotate env t final_zip_path remote remote_path keep w3")
        from cleanup_and_rotate_events [OF 4] obtain c where
          c: "trace w4 = trace w3 @ c" "fail_stop r4 c" by blast
        have "w' = w4" "raised out = r4"
          using assms Inr vd 1 None 2 z 3 n3 4
          by (auto simp: backup_steps_def split: option.splits)
        moreover have "trace w4 = trace w @ ?q @ c" using q3 c by simp
        moreover have "(RcloneCopy final_zip_path (remote_target remote remote_path), None)
            \<in> set ?q"
          using n3 by simp
        ultimately show ?thesis using q3(2) c(2) by blast
      qed
    qed
  qed
qed

lemma create_project_zip_eq:
  assumes "create_project_zip env pd ts w = (r, w')"
  shows "trace w' = trace w @ [(MakeArchive (tree_archive pd ts) pd (fs_under pd (fs w)),
            case r of Inl e \<Rightarrow> Some e | Inr z \<Rightarrow> None)] \<and>
         fs w' = (case r of Inl e \<Rightarrow> fs w | Inr z \<Rightarrow> fs_add (tree_archive pd ts) File (fs w)) \<and>
         (case r of Inl e \<Rightarrow> cmd_result env (length (trace w))
              (MakeArchive (tree_archive pd ts) pd (fs_under pd (fs w))) = Some e
          | Inr z \<Rightarrow> cmd_result env (length (trace w))
              (MakeArchive (tree_archive pd ts) pd (fs_under pd (fs w))) = None)"
  using assms
  by (auto simp: create_project_zip_def tree_archive_def Let_def dest!: perform_eq
           split: prod.splits option.splits)

lemma path_exists_fs_add: "path_exists (fs_add p k f) q = (q = p \<or> path_exists f q)"
proof -
  have "map_of (filter (\<lambda>(q, k). q \<noteq> p) f) q = (if q = p then None else map_of f q)"
    by (induction f) auto
  then show ?thesis by (auto simp: path_exists_def fs_add_def fs_remove_def)
qed

lemma map_of_fs_add: "map_of (fs_add p k f) q = (if q = p then Some k else map_of f q)"
proof -
  have "map_of (filter (\<lambda>(q, k). q \<noteq> p) f) q = (if q = p then None else map_of f q)"
    by (induction f) auto
  then show ?thesis by (auto simp: fs_add_def fs_remove_def)
qed

lemma backup_project_shape:
  assumes "backup_project env pd remote remote_path keep w = (out, w')"
  shows "\<exists>q c. trace w' = trace w @ q @ c \<and> quiet q \<and> fail_stop (raised out) c \<and>
           (c \<noteq> [] \<longrightarrow> (\<exists>p d. (RcloneCopy p d, None) \<in> set q))"
proof (cases "is_dir (fs w) pd")
  case False
  then have "w' = w" using assms by (simp add: backup_project_def)
  then have "trace w' = trace w @ [] @ []" by simp
  then show ?thesis using fail_stop_of_quiet quiet_simps(1) by blast
next
  case True
  let ?ts = "now env (length (trace w))"
  let ?t = "staging_dir pd ?ts"
  obtain r1 w1 where 1: "create_project_zip env pd ?ts w = (r1, w1)"
    by (cases "create_project_zip env pd ?ts w")
  from create_project_zip_eq [OF 1] obtain ev1 where
    e1: "trace w1 = trace w @ [ev1]" "quiet [ev1]" by auto
  show ?thesis
  proof (cases r1)
    case (Inl e)
    then have "w' = w1" using assms True 1 by (simp add: backup_project_def Let_def)
    then have "trace w' = trace w @ [ev1] @ []" using e1 by simp
    then show ?thesis using e1(2) fail_stop_of_quiet quiet_simps(1) by blast
  next
    case (Inr z)
    obtain r2 w2 where 2: "mkdir env ?t w1 = (r2, w2)" by (cases "mkdir env ?t w1")
    have e2: "trace w2 = trace w @ [ev1, (Mkdir ?t, r2)]" "quiet [ev1, (Mkdir ?t, r2)]"
      using mkdir_eq [OF 2] e1 by auto
    show ?thesis
    proof (cases r2)
      case (Some e)
      then have "w' = w2"
        using assms True 1 Inr 2 by (auto simp: backup_project_def Let_def split: if_splits)
      then have "trace w' = trace w @ [ev1, (Mkdir ?t, r2)] @ []" using e2 by simp
      then show ?thesis using e2(2) fail_stop_of_quiet quiet_simps(1) by blast
    next
      case None
      let ?dst = "?t @ [path_name z]"
      obtain r3 w3 where 3: "move env z ?dst w2 = (r3, w3)" by (cases "move env z ?dst w2")
      let ?q = "[ev1, (Mkdir ?t, r2), (Move z ?dst, r3)]"
      have e3: "trace w3 = trace w @ ?q" "quiet ?q"
        using move_eq [OF 3] e2 by auto
      show ?thesis
      proof (cases r3)
        case (Some e)
        then have "w' = w3"
          using assms True 1 Inr 2 None 3 by (auto simp: backup_project_def Let_def)
        then have "trace w' = trace w @ ?q @ []" using e3 by simp
        then show ?thesis using e3(2) fail_stop_of_quiet quiet_simps(1) by blast
      next
        case n3: None
        then have "backup_steps env pd remote remote_path keep ?ts ?t w3 = (out, w')"
          using assms True 1 Inr 2 None 3 by (auto simp: backup_project_def Let_def)
        from backup_steps_shape [OF this] obtain q c where
          c: "trace w' = trace w3 @ q @ c" "quiet q" "fail_stop (raised out) c"
            "c \<noteq> [] \<longrightarrow> (\<exists>p d. (RcloneCopy p d, None) \<in> set q)"
          by blast
        have "trace w' = trace w @ (?q @ q) @ c" using e3 c(1) by simp
        moreover have "quiet (?q @ q)" using e3(2) c(2) by simp
        moreover have "c \<noteq> [] \<longrightarrow> (\<exists>p d. (RcloneCopy p d, None) \<in> set (?q @ q))"
          using c(4) by auto
        ultimately show ?thesis using c(3) by blast
      qed
    qed
  qed
qed

lemma backup_project_events:
  assumes "backup_project env pd remote remote_path keep w = (out, w')"
  shows "\<exists>evs. trace w' = trace w @ evs \<and> fail_stop (raised out) evs"
proof -
  from backup_project_shape [OF assms] obtain q c where
    "trace w' = trace w @ q @ c" "quiet q" "fail_stop (raised out) c" by blast
  then show ?thesis using fail_stop_quiet by blast
qed

text \<open>
  In every run, whatever its outcome, an operation of the cleanup stage comes after a
  successful upload: nothing local is deleted before the final bundle has been copied to
  the remote.
\<close>

lemma cleanup_follows_upload:
  assumes run: "backup_project env project_dir remote remote_path keep w = (out, w')"
    and ev: "new_events w w' = before @ (a, r) # after"
    and cl: "is_cleanup a"
  shows "\<exists>p d. (RcloneCopy p d, None) \<in> set before"
proof -
  from backup_project_shape [OF run] obtain q c where
    s: "trace w' = trace w @ q @ c" "quiet q"
       "c \<noteq> [] \<longrightarrow> (\<exists>p d. (RcloneCopy p d, None) \<in> set q)"
    by blast
  have eq: "q @ c = before @ (a, r) # after" using s(1) ev by (simp add: new_events_def)
  have "(a, r) \<notin> set q" using s(2) cl by (auto simp: quiet_def)
  then have "\<exists>us. before = q @ us"
    using eq by (auto simp: append_eq_append_conv2 append_eq_Cons_conv)
  then obtain us where us: "before = q @ us" by blast
  then have "c \<noteq> []" using eq by auto
  then show ?thesis using s(3) us by auto
qed

text \<open>
  Claim C8, as the code has it. A failure of \<^verbatim>\<open>shutil.rmtree\<close> on the staging directory or of
  \<^verbatim>\<open>unlink\<close> on the local final bundle is not swallowed: the handler of line 353 raises it
  again. In every run, a failed cleanup operation is the last thing the run does, its
  exception is the outcome of the run, and no command of the rotation is run.
\<close>

theorem cleanup_failure_is_raised:
  assumes run: "backup_project env project_dir remote remote_path keep w = (out, w')"
    and ev: "(a, Some e) \<in> set (new_events w w')"
    and cl: "is_cleanup a"
  shows "out = Raised e \<and> last (trace w') = (a, Some e) \<and>
         (\<forall>ev \<in> set (new_events w w'). \<not> is_rotation (fst ev))"
proof -
  from backup_project_events [OF run] obtain evs where
    evs: "trace w' = trace w @ evs" "fail_stop (raised out) evs" by blast
  have ne: "new_events w w' = evs" using evs(1) by (simp add: new_events_def)
  then have "(a, Some e) \<in> set evs" using ev by simp
  then have f: "raised out = Some e" "last evs = (a, Some e)"
      "\<forall>ev \<in> set evs. \<not> is_rotation (fst ev)" and "evs \<noteq> []"
    using evs(2) cl by (auto simp: fail_stop_def)
  then have "out = Raised e" by (cases out) auto
  then show ?thesis using f ne evs(1) \<open>evs \<noteq> []\<close> by simp
qed

lemma fs_tree_parent:
  assumes "fs_tree f" "path_exists f (q @ zs)"
  shows "path_exists f q"
  using assms(2)
proof (induction zs rule: rev_induct)
  case Nil
  then show ?case by simp
next
  case (snoc z zs)
  then obtain k where "(q @ zs @ [z], k) \<in> set f"
    by (auto simp: path_exists_def dest: map_of_SomeD)
  then have "path_exists f (butlast (q @ zs @ [z]))"
    using assms(1) by (auto simp: fs_tree_def list_all_iff)
  then have "path_exists f (q @ zs)" by (simp add: butlast_append)
  then show ?case by (rule snoc.IH)
qed

lemma fs_under_absent:
  assumes "fs_tree f" "\<not> path_exists f t" "p \<in> set (fs_under d f)"
  shows "\<not> prefix t p"
proof
  assume "prefix t p"
  then obtain zs where p: "p = t @ zs" by (auto simp: prefix_def)
  have "p \<in> fst ` set f" using assms(3) by (auto simp: fs_under_def)
  then have "path_exists f p"
    by (auto simp: path_exists_def map_of_eq_None_iff)
  then have "path_exists f t" using fs_tree_parent [OF assms(1)] p by blast
  then show False using assms(2) by simp
qed

lemma tree_archive_outside:
  assumes "pd \<noteq> []"
  shows "\<not> prefix pd (tree_archive pd ts)"
proof
  assume "prefix pd (tree_archive pd ts)"
  moreover have "length (tree_archive pd ts) = length pd"
    using assms by (simp add: tree_archive_def path_parent_def)
  ultimately have "pd = tree_archive pd ts"
    by (auto simp: prefix_def)
  then have "last pd = last (tree_archive pd ts)" by simp
  then have "last pd = last pd @ ''-project-'' @ ts @ ''.zip''"
    using assms by (simp add: tree_archive_def path_name_def)
  then show False by simp
qed

lemma staging_not_tree_archive: "staging_dir pd ts \<noteq> tree_archive pd ts'"
proof (cases "pd = []")
  case True
  then show ?thesis by (simp add: staging_dir_def tree_archive_def path_parent_def path_name_def)
next
  case False
  then have "length (staging_dir pd ts) \<noteq> length (tree_archive pd ts')"
    by (simp add: staging_dir_def tree_archive_def path_parent_def)
  then show ?thesis by auto
qed

lemma backup_project_head:
  assumes run: "backup_project env pd remote remote_path keep w = (out, w')"
    and ne: "new_events w w' \<noteq> []"
  shows "\<exists>r1 rest. new_events w w' =
           (MakeArchive (tree_archive pd (now env (length (trace w)))) pd (fs_under pd (fs w)), r1)
             # rest \<and>
         (rest \<noteq> [] \<longrightarrow> r1 = None \<and>
           (\<exists>r2 rest'. rest = (Mkdir (staging_dir pd (now env (length (trace w)))), r2) # rest' \<and>
              (r2 = None \<longrightarrow> \<not> path_exists (fs w) (staging_dir pd (now env (length (trace w))))) \<and>
              (rest' \<noteq> [] \<longrightarrow> r2 = None)))"
proof -
  let ?ts = "now env (length (trace w))"
  let ?t = "staging_dir pd ?ts"
  let ?ma = "MakeArchive (tree_archive pd ?ts) pd (fs_under pd (fs w))"
  have dir: "is_dir (fs w) pd"
    using run ne by (cases "is_dir (fs w) pd") (auto simp: backup_project_def new_events_def)
  obtain r1 w1 where 1: "create_project_zip env pd ?ts w = (r1, w1)"
    by (cases "create_project_zip env pd ?ts w")
  note z = create_project_zip_eq [OF 1]
  show ?thesis
  proof (cases r1)
    case (Inl e)
    then have "w' = w1" using run dir 1 by (simp add: backup_project_def Let_def)
    then have "new_events w w' = [(?ma, Some e)]" using z Inl by (simp add: new_events_def)
    then show ?thesis by simp
  next
    case (Inr zp)
    then have t1: "trace w1 = trace w @ [(?ma, None)]"
      and f1: "fs w1 = fs_add (tree_archive pd ?ts) File (fs w)" using z by auto
    obtain r2 w2 where 2: "mkdir env ?t w1 = (r2, w2)" by (cases "mkdir env ?t w1")
    note m = mkdir_eq [OF 2]
    have ex: "r2 = None \<longrightarrow> \<not> path_exists (fs w) ?t"
      using m f1 by (auto simp: path_exists_fs_add)
    have t2: "trace w2 = trace w @ [(?ma, None), (Mkdir ?t, r2)]" using m t1 by simp
    show ?thesis
    proof (cases r2)
      case (Some e)
      then have "w' = w2"
        using run dir 1 Inr 2 by (auto simp: backup_project_def Let_def split: if_splits)
      then have "new_events w w' = [(?ma, None), (Mkdir ?t, Some e)]"
        using t2 Some by (simp add: new_events_def)
      then show ?thesis by simp
    next
      case None
      let ?dst = "?t @ [path_name zp]"
      obtain r3 w3 where 3: "move env zp ?dst w2 = (r3, w3)" by (cases "move env zp ?dst w2")
      have t3: "trace w3 = trace w @ [(?ma, None), (Mkdir ?t, None), (Move zp ?dst, r3)]"
        using move_eq [OF 3] t2 None by simp
      have "\<exists>c. trace w' = trace w3 @ c"
      proof (cases r3)
        case (Some e)
        then have "w' = w3"
          using run dir 1 Inr 2 None 3 by (auto simp: backup_project_def Let_def)
        then show ?thesis by simp
      next
        case n3: None
        then have "backup_steps env pd remote remote_path keep ?ts ?t w3 = (out, w')"
          using run dir 1 Inr 2 None 3 by (auto simp: backup_project_def Let_def)
        from backup_steps_shape [OF this] obtain q c where "trace w' = trace w3 @ q @ c"
          by blast
        then show ?thesis by blast
      qed
      then obtain c where "trace w' = trace w3 @ c" by blast
      then have "new_events w w' = (?ma, None) # (Mkdir ?t, None) # (Move zp ?dst, r3) # c"
        using t3 by (simp add: new_events_def)
      then show ?thesis using ex None by simp
    qed
  qed
qed

text \<open>
  Claim C5. In every run on a file system that is a tree, a successful creation of the
  staging directory is preceded by the successful creation of the project-tree archive; the
  archive holds no path in or under the staging directory, and it is written outside the
  project directory (for a project directory that is not the root).
\<close>

theorem tree_archive_precedes_staging_directory:
  assumes tree: "fs_tree (fs w)"
    and run: "backup_project env project_dir remote remote_path keep w = (out, w')"
    and i: "i < length (new_events w w')"
    and mk: "new_events w w' ! i =
        (Mkdir (staging_dir project_dir (now env (length (trace w)))), None)"
  shows "\<exists>j<i. \<exists>paths.
           new_events w w' ! j =
             (MakeArchive (tree_archive project_dir (now env (length (trace w)))) project_dir paths,
              None) \<and>
           (\<forall>p \<in> set paths.
              \<not> prefix (staging_dir project_dir (now env (length (trace w)))) p) \<and>
           (project_dir \<noteq> [] \<longrightarrow>
              \<not> prefix project_dir (tree_archive project_dir (now env (length (trace w)))))"
proof -
  let ?ts = "now env (length (trace w))"
  let ?t = "staging_dir project_dir ?ts"
  let ?snap = "fs_under project_dir (fs w)"
  have ne: "new_events w w' \<noteq> []" using i by auto
  from backup_project_head [OF run ne] obtain r1 rest where
    h: "new_events w w' = (MakeArchive (tree_archive project_dir ?ts) project_dir ?snap, r1) # rest"
       "rest \<noteq> [] \<longrightarrow> r1 = None \<and>
           (\<exists>r2 rest'. rest = (Mkdir ?t, r2) # rest' \<and>
              (r2 = None \<longrightarrow> \<not> path_exists (fs w) ?t) \<and> (rest' \<noteq> [] \<longrightarrow> r2 = None))"
    by blast
  have i0: "0 < i" using mk h(1) by (cases i) auto
  then have rne: "rest \<noteq> []" using i h(1) by (cases rest) auto
  then obtain r2 rest' where
    r: "r1 = None" "rest = (Mkdir ?t, r2) # rest'"
       "r2 = None \<longrightarrow> \<not> path_exists (fs w) ?t" "rest' \<noteq> [] \<longrightarrow> r2 = None"
    using h(2) by blast
  have "r2 = None"
  proof (cases "i = 1")
    case True
    then show ?thesis using mk h(1) r(2) by simp
  next
    case False
    then have "rest' \<noteq> []" using i i0 h(1) r(2) by (cases rest') auto
    then show ?thesis using r(4) by simp
  qed
  then have absent: "\<not> path_exists (fs w) ?t" using r(3) by simp
  have "\<forall>p \<in> set ?snap. \<not> prefix ?t p"
    using fs_under_absent [OF tree absent] by blast
  moreover have "new_events w w' ! 0 =
      (MakeArchive (tree_archive project_dir ?ts) project_dir ?snap, None)"
    using h(1) r(1) by simp
  moreover have "project_dir \<noteq> [] \<longrightarrow> \<not> prefix project_dir (tree_archive project_dir ?ts)"
    using tree_archive_outside by blast
  ultimately show ?thesis using i0 by blast
qed

theorem tree_archive_precedes_staging_directory_witness:
  "\<exists>j<1. \<exists>paths.
     new_events shop_world
       (snd (backup_project sample_env [''srv'', ''shop''] ''remote'' ''backups/shop'' 4
          shop_world)) ! j =
       (MakeArchive [''srv'', ''shop-project-20240107-030000.zip''] [''srv'', ''shop''] paths,
        None) \<and>
     (\<forall>p \<in> set paths.
        \<not> prefix [''srv'', ''shop'', ''.docker-backup-temp-20240107-030000''] p) \<and>
     \<not> prefix [''srv'', ''shop''] [''srv'', ''shop-project-20240107-030000.zip'']"
proof -
  let ?run = "backup_project sample_env [''srv'', ''shop''] ''remote'' ''backups/shop'' 4
    shop_world"
  have 1: "fs_tree (fs shop_world)" by code_simp
  have 2: "?run = (fst ?run, snd ?run)" by simp
  have 3: "1 < length (new_events shop_world (snd ?run))" by code_simp
  have 4: "new_events shop_world (snd ?run) ! 1 =
      (Mkdir (staging_dir [''srv'', ''shop''] (now sample_env (length (trace shop_world)))),
       None)"
    by code_simp
  have ts: "now sample_env (length (trace shop_world)) = ''20240107-030000''"
    by (simp add: sample_env_def)
  show ?thesis
    using tree_archive_precedes_staging_directory [OF 1 2 3 4]
    by (simp add: ts tree_archive_def staging_dir_def path_parent_def path_name_def)
qed

text \<open>
  Claim C8 as stated fails: when \<^verbatim>\<open>shutil.rmtree\<close> fails after the upload, the run raises
  \<^verbatim>\<open>OSError\<close> and runs no command of the rotation, although the rotation would succeed from
  the state the run ends in.
\<close>

theorem cleanup_failure_swallowed_counterexample:
  "fst (backup_project rmtree_fails [''srv'', ''shop''] ''remote'' ''backups/shop'' 4
          shop_world) = Raised OSError \<and>
   filter (\<lambda>ev. is_rotation (fst ev))
     (trace (snd (backup_project rmtree_fails [''srv'', ''shop''] ''remote'' ''backups/shop'' 4
        shop_world))) = [] \<and>
   fst (rotate_project_backups rmtree_fails ''remote'' ''backups/shop'' 4
     (snd (backup_project rmtree_fails [''srv'', ''shop''] ''remote'' ''backups/shop'' 4
        shop_world))) = None"
  by code_simp

theorem cleanup_failure_is_raised_witness:
  "fst (backup_project rmtree_fails [''srv'', ''shop''] ''remote'' ''backups/shop'' 4
          shop_world) = Raised OSError \<and>
   last (trace (snd (backup_project rmtree_fails [''srv'', ''shop''] ''remote'' ''backups/shop''
          4 shop_world))) =
     (Rmtree [''srv'', ''shop'', ''.docker-backup-temp-20240107-030000''], Some OSError)"
proof -
  let ?run = "backup_project rmtree_fails [''srv'', ''shop''] ''remote'' ''backups/shop'' 4
    shop_world"
  have 1: "?run = (fst ?run, snd ?run)" by simp
  have 2: "(Rmtree [''srv'', ''shop'', ''.docker-backup-temp-20240107-030000''], Some OSError)
      \<in> set (new_events shop_world (snd ?run))"
    by code_simp
  have 3: "is_cleanup (Rmtree [''srv'', ''shop'', ''.docker-backup-temp-20240107-030000''])"
    by simp
  show ?thesis using cleanup_failure_is_raised [OF 1 2 3] by simp
qed

section \<open>Properties of the batch and of runs that collide or misname\<close>

lemma backup_each_append:
  "backup_each env r rp (pre @ rest) fl w =
     (case backup_each env r rp pre fl w of
        (Returned fl', w') \<Rightarrow> backup_each env r rp rest fl' w'
      | (Raised e, w') \<Rightarrow> (Raised e, w')
      | (SysExit c, w') \<Rightarrow> (SysExit c, w'))"
proof (induction pre arbitrary: fl w)
  case Nil
  then show ?case by simp
next
  case (Cons p pre)
  then show ?case by (simp split: prod.splits outcome.splits)
qed

lemma collision_run:
  assumes dir: "is_dir (fs w) pd"
    and ok: "cmd_result env (length (trace w))
        (MakeArchive (tree_archive pd (now env (length (trace w)))) pd (fs_under pd (fs w))) = None"
    and coll: "path_exists (fs w) (staging_dir pd (now env (length (trace w))))"
  shows "backup_project env pd remote rp keep w = (SysExit 1, after_collision env pd w)"
proof -
  let ?ts = "now env (length (trace w))"
  let ?zip = "tree_archive pd ?ts"
  let ?w1 = "w\<lparr>fs := fs_add ?zip File (fs w),
      trace := trace w @ [(MakeArchive ?zip pd (fs_under pd (fs w)), None)]\<rparr>"
  have 1: "create_project_zip env pd ?ts w =
      (Inr (path_parent pd @ [with_suffix (path_name pd @ ''-project-'' @ ?ts) ''.zip'']), ?w1)"
    using ok by (simp add: create_project_zip_def perform_def Let_def tree_archive_def)
  have "path_exists (fs ?w1) (staging_dir pd ?ts)"
    using coll by (simp add: path_exists_fs_add)
  then have 2: "mkdir env (staging_dir pd ?ts) ?w1 =
      (Some FileExistsError, after_collision env pd w)"
    by (simp add: mkdir_def refuse_def after_collision_def Let_def)
  show ?thesis using dir 1 2 by (simp add: backup_project_def Let_def)
qed

text \<open>
  Claim C10. When the staging directory already exists at the moment the run tries to create
  it (the project directory is there and the project-tree archive has just been written),
  the run ends in \<^verbatim>\<open>sys.exit(1)\<close>: the process exits with code 1, nothing is done after the
  failed \<^verbatim>\<open>mkdir\<close>, and the archive stays in the parent of the project directory. In the
  batch the handler of line 41 does not catch the exit: when this happens to the project
  \<open>project_dir\<close> after the projects \<open>pre\<close> have run, the batch ends there, in the same world,
  and the projects \<open>post\<close> are not attempted.
\<close>

theorem staging_collision_exits_process:
  assumes dir: "is_dir (fs w) project_dir"
    and ok: "cmd_result env (length (trace w))
        (MakeArchive (tree_archive project_dir (now env (length (trace w)))) project_dir
           (fs_under project_dir (fs w))) = None"
    and coll: "path_exists (fs w) (staging_dir project_dir (now env (length (trace w))))"
  shows "backup_project env project_dir remote remote_path keep w =
           (SysExit 1, after_collision env project_dir w) \<and>
         exit_code (fst (backup_project env project_dir remote remote_path keep w)) = 1 \<and>
         is_file (fs (after_collision env project_dir w))
           (tree_archive project_dir (now env (length (trace w)))) \<and>
         (is_dir (fs w0) root \<and>
          iter_project_dirs (fs w0) root = pre @ project_dir # post \<and>
          backup_each env remote remote_path pre [] w0 = (Returned failures, w) \<longrightarrow>
            backup_all_projects env remote remote_path root w0 =
              (SysExit 1, after_collision env project_dir w) \<and>
            exit_code (fst (backup_all_projects env remote remote_path root w0)) = 1)"
proof -
  have run: "backup_project env project_dir r rp k w =
      (SysExit 1, after_collision env project_dir w)" for r rp k
    using dir ok coll by (rule collision_run)
  have left: "is_file (fs (after_collision env project_dir w))
      (tree_archive project_dir (now env (length (trace w))))"
    by (simp add: after_collision_def Let_def is_file_def map_of_fs_add)
  have batch: "backup_all_projects env remote remote_path root w0 =
      (SysExit 1, after_collision env project_dir w)"
    if "is_dir (fs w0) root" "iter_project_dirs (fs w0) root = pre @ project_dir # post"
      "backup_each env remote remote_path pre [] w0 = (Returned failures, w)"
    using that run by (simp add: backup_all_projects_def Let_def backup_each_append)
  show ?thesis using run left batch by simp
qed

lemma backup_each_runs:
  "list_all (\<lambda>(p, out). \<not> is_exit out) (batch_runs env r rp dirs w) \<Longrightarrow>
   backup_each env r rp dirs fl w =
     (Returned (fl @ failures_of (batch_runs env r rp dirs w)), batch_world env r rp dirs w)"
proof (induction dirs arbitrary: fl w)
  case Nil
  then show ?case by (simp add: failures_of_def)
next
  case (Cons p ps)
  obtain out w1 where run: "backup_project env p r rp 4 w = (out, w1)"
    by (cases "backup_project env p r rp 4 w")
  then have rest: "list_all (\<lambda>(p, out). \<not> is_exit out) (batch_runs env r rp ps w1)"
    and ne: "\<not> is_exit out"
    using Cons.prems by auto
  show ?case
  proof (cases out)
    case (Returned z)
    then show ?thesis using run Cons.IH [OF rest] by (simp add: failures_of_def)
  next
    case (Raised e)
    then show ?thesis using run Cons.IH [OF rest] by (simp add: failures_of_def)
  next
    case (SysExit c)
    then show ?thesis using ne by simp
  qed
qed

lemma map_fst_batch_runs: "map fst (batch_runs env r rp dirs w) = dirs"
  by (induction dirs arbitrary: w) auto

lemma failures_of_iff:
  "(p, e) \<in> set (failures_of runs) \<longleftrightarrow> (p, Raised e) \<in> set runs"
proof (induction runs)
  case Nil
  then show ?case by (simp add: failures_of_def)
next
  case (Cons r runs)
  obtain q out where r: "r = (q, out)" by (cases r)
  show ?case using Cons r by (cases out) (auto simp: failures_of_def)
qed

lemma failures_of_empty_iff:
  assumes "list_all (\<lambda>(p, out). \<not> is_exit out) runs"
  shows "failures_of runs = [] \<longleftrightarrow> list_all (\<lambda>(p, out). is_returned out) runs"
  using assms
proof (induction runs)
  case Nil
  then show ?case by (simp add: failures_of_def)
next
  case (Cons r runs)
  obtain q out where r: "r = (q, out)" by (cases r)
  show ?case using Cons r by (cases out) (auto simp: failures_of_def)
qed

lemma sibling_le: "root @ [a] \<le> root @ [b] \<longleftrightarrow> a \<le> (b::'a::linorder)"
  by (induction root) auto

lemma set_iter_project_dirs:
  "set (iter_project_dirs f root) =
     {p. p \<noteq> [] \<and> path_parent p = root \<and> is_dir f p}"
  by (auto simp: iter_project_dirs_def is_dir_def dest: map_of_SomeD intro: rev_image_eqI)

lemma sorted_iter_project_dirs: "sorted (map path_name (iter_project_dirs f root))"
proof -
  let ?ds = "iter_project_dirs f root"
  have s: "sorted ?ds" by (simp add: iter_project_dirs_def sorted_wrt_filter)
  have "sorted_wrt (\<lambda>p q. path_name p \<le> path_name q) ?ds"
  proof (rule sorted_wrt_mono_rel [OF _ s])
    fix p q assume "p \<in> set ?ds" "q \<in> set ?ds" "p \<le> q"
    then have "p \<noteq> []" "q \<noteq> []" "butlast p = root" "butlast q = root"
      by (auto simp: set_iter_project_dirs path_parent_def)
    then have "p = root @ [last p]" "q = root @ [last q]"
      by (metis append_butlast_last_id)+
    then have "last p \<le> last q" using \<open>p \<le> q\<close> sibling_le by metis
    then show "path_name p \<le> path_name q"
      using \<open>p \<noteq> []\<close> \<open>q \<noteq> []\<close> by (simp add: path_name_def)
  qed
  then show ?thesis by (simp add: sorted_map)
qed

lemma distinct_iter_project_dirs: "distinct (iter_project_dirs f root)"
  by (simp add: iter_project_dirs_def)

text \<open>
  Claim C9, as the code has it. For a root that is a directory with at least one directory
  in it, and as long as no run ends the process: the workflow is run once for each
  directory of the root, in the order of their names; a run that raises is recorded and
  the next one runs; the batch returns exactly when every run returned, and otherwise
  raises the aggregate error, which names each project whose run raised, with its
  exception.
\<close>

theorem batch_isolates_project_failures:
  assumes root: "is_dir (fs w) root"
    and ne: "iter_project_dirs (fs w) root \<noteq> []"
    and noexit: "list_all (\<lambda>(p, out). \<not> is_exit out)
        (batch_runs env remote remote_path (iter_project_dirs (fs w) root) w)"
  shows "backup_all_projects env remote remote_path root w =
           (batch_outcome (batch_runs env remote remote_path (iter_project_dirs (fs w) root) w),
            batch_world env remote remote_path (iter_project_dirs (fs w) root) w) \<and>
         map fst (batch_runs env remote remote_path (iter_project_dirs (fs w) root) w) =
           iter_project_dirs (fs w) root \<and>
         set (iter_project_dirs (fs w) root) =
           {p. p \<noteq> [] \<and> path_parent p = root \<and> is_dir (fs w) p} \<and>
         distinct (iter_project_dirs (fs w) root) \<and>
         sorted (map path_name (iter_project_dirs (fs w) root)) \<and>
         (fst (backup_all_projects env remote remote_path root w) = Returned () \<longleftrightarrow>
            list_all (\<lambda>(p, out). is_returned out)
              (batch_runs env remote remote_path (iter_project_dirs (fs w) root) w)) \<and>
         (\<forall>p e. (p, e) \<in> set (failures_of
              (batch_runs env remote remote_path (iter_project_dirs (fs w) root) w)) \<longleftrightarrow>
            (p, Raised e) \<in> set
              (batch_runs env remote remote_path (iter_project_dirs (fs w) root) w))"
proof -
  let ?runs = "batch_runs env remote remote_path (iter_project_dirs (fs w) root) w"
  have each: "backup_each env remote remote_path (iter_project_dirs (fs w) root) [] w =
      (Returned (failures_of ?runs),
       batch_world env remote remote_path (iter_project_dirs (fs w) root) w)"
    using backup_each_runs [OF noexit, of "[]"] by simp
  have all: "backup_all_projects env remote remote_path root w =
      (batch_outcome ?runs, batch_world env remote remote_path (iter_project_dirs (fs w) root) w)"
    using root ne each by (simp add: backup_all_projects_def Let_def batch_outcome_def)
  have ok: "fst (backup_all_projects env remote remote_path root w) = Returned () \<longleftrightarrow>
      list_all (\<lambda>(p, out). is_returned out) ?runs"
    using failures_of_empty_iff [OF noexit] by (simp add: all batch_outcome_def)
  show ?thesis
    unfolding all
    using ok [unfolded all]
    by (simp add: map_fst_batch_runs set_iter_project_dirs distinct_iter_project_dirs
          sorted_iter_project_dirs failures_of_iff)
qed

theorem staging_collision_exits_process_witness:
  "backup_all_projects sample_env ''remote'' ''backups'' [''srv''] collision_world =
     (SysExit 1, after_collision sample_env [''srv'', ''alpha''] collision_world) \<and>
   trace (after_collision sample_env [''srv'', ''alpha''] collision_world) =
     [(MakeArchive [''srv'', ''alpha-project-20240107-030000.zip''] [''srv'', ''alpha'']
         [[''srv'', ''alpha''], [''srv'', ''alpha'', ''docker-compose.yml''],
          [''srv'', ''alpha'', ''.docker-backup-temp-20240107-030000'']], None),
      (Mkdir [''srv'', ''alpha'', ''.docker-backup-temp-20240107-030000''],
         Some FileExistsError)] \<and>
   is_file (fs (after_collision sample_env [''srv'', ''alpha''] collision_world))
     [''srv'', ''alpha-project-20240107-030000.zip'']"
proof -
  have 1: "is_dir (fs collision_world) [''srv'', ''alpha'']" by code_simp
  have 2: "cmd_result sample_env (length (trace collision_world))
      (MakeArchive (tree_archive [''srv'', ''alpha'']
           (now sample_env (length (trace collision_world)))) [''srv'', ''alpha'']
         (fs_under [''srv'', ''alpha''] (fs collision_world))) = None"
    by (simp add: sample_env_def)
  have 3: "path_exists (fs collision_world)
      (staging_dir [''srv'', ''alpha''] (now sample_env (length (trace collision_world))))"
    by code_simp
  have 4: "is_dir (fs collision_world) [''srv'']" by code_simp
  have 5: "iter_project_dirs (fs collision_world) [''srv''] =
      [] @ [''srv'', ''alpha''] # [[''srv'', ''beta'']]"
    by code_simp
  have 6: "backup_each sample_env ''remote'' ''backups'' [] [] collision_world =
      (Returned [], collision_world)"
    by simp
  have tr: "trace (after_collision sample_env [''srv'', ''alpha''] collision_world) =
     [(MakeArchive [''srv'', ''alpha-project-20240107-030000.zip''] [''srv'', ''alpha'']
         [[''srv'', ''alpha''], [''srv'', ''alpha'', ''docker-compose.yml''],
          [''srv'', ''alpha'', ''.docker-backup-temp-20240107-030000'']], None),
      (Mkdir [''srv'', ''alpha'', ''.docker-backup-temp-20240107-030000''],
         Some FileExistsError)]"
    by code_simp
  have ts: "tree_archive [''srv'', ''alpha'']
      (now sample_env (length (trace collision_world))) =
      [''srv'', ''alpha-project-20240107-030000.zip'']"
    by code_simp
  show ?thesis
    using staging_collision_exits_process [OF 1 2 3, where ?w0.0 = collision_world and root = "[''srv'']"
        and pre = "[]" and post = "[[''srv'', ''beta'']]" and failures = "[]"
        and remote = "''remote''" and remote_path = "''backups''"] 4 5 6
    by (simp add: tr ts)
qed

text \<open>
  Claim C9 as stated fails on a root without a project directory: no run fails, since there
  is none, and the batch raises \<^verbatim>\<open>FileNotFoundError\<close> (line 32), which is not the aggregate
  error.
\<close>

theorem batch_on_empty_root_counterexample:
  "batch_runs sample_env ''remote'' ''backups''
     (iter_project_dirs (fs empty_root_world) [''srv'']) empty_root_world = [] \<and>
   backup_all_projects sample_env ''remote'' ''backups'' [''srv''] empty_root_world =
     (Raised FileNotFoundError, empty_root_world)"
  by code_simp

theorem batch_isolates_project_failures_witness:
  "map fst (batch_runs sample_env ''remote'' ''backups''
      (iter_project_dirs (fs two_projects_world) [''srv'']) two_projects_world) =
     [[''srv'', ''db''], [''srv'', ''web'']] \<and>
   fst (backup_all_projects sample_env ''remote'' ''backups'' [''srv''] two_projects_world) =
     Raised (CompletedWithFailures [(''web'', FileNotFoundError)])"
proof -
  have 1: "is_dir (fs two_projects_world) [''srv'']" by code_simp
  have 2: "iter_project_dirs (fs two_projects_world) [''srv''] \<noteq> []" by code_simp
  have 3: "list_all (\<lambda>(p, out). \<not> is_exit out)
      (batch_runs sample_env ''remote'' ''backups''
         (iter_project_dirs (fs two_projects_world) [''srv'']) two_projects_world)"
    by code_simp
  have 4: "batch_outcome (batch_runs sample_env ''remote'' ''backups''
         (iter_project_dirs (fs two_projects_world) [''srv'']) two_projects_world) =
      Raised (CompletedWithFailures [(''web'', FileNotFoundError)])"
    by code_simp
  have 5: "iter_project_dirs (fs two_projects_world) [''srv''] =
      [[''srv'', ''db''], [''srv'', ''web'']]"
    by code_simp
  note c = batch_isolates_project_failures [OF 1 2 3]
  have a: "fst (backup_all_projects sample_env ''remote'' ''backups'' [''srv'']
      two_projects_world) = Raised (CompletedWithFailures [(''web'', FileNotFoundError)])"
    using c [THEN conjunct1] 4 by (simp only: fst_conv)
  have b: "map fst (batch_runs sample_env ''remote'' ''backups''
      (iter_project_dirs (fs two_projects_world) [''srv'']) two_projects_world) =
     [[''srv'', ''db''], [''srv'', ''web'']]"
    using c [THEN conjunct2, THEN conjunct1] 5 by (simp only:)
  show ?thesis using a b by (rule conjI [rotated])
qed

text \<open>
  A run of the project \<^verbatim>\<open>shop\<close> in which everything succeeds: one upload, of
  \<^verbatim>\<open>shop-20240107-030000.zip\<close>, and the file system is afterwards what it was before.
\<close>

lemma shop_run_leaves_nothing_local:
  "fst (backup_project sample_env [''srv'', ''shop''] ''remote'' ''backups/shop'' 4 shop_world) =
     Returned [''srv'', ''shop'', ''shop-20240107-030000.zip''] \<and>
   filter (\<lambda>ev. is_upload (fst ev))
     (trace (snd (backup_project sample_env [''srv'', ''shop''] ''remote'' ''backups/shop'' 4
        shop_world))) =
     [(RcloneCopy [''srv'', ''shop'', ''shop-20240107-030000.zip''] ''remote:backups/shop'',
       None)] \<and>
   fs (snd (backup_project sample_env [''srv'', ''shop''] ''remote'' ''backups/shop'' 4
        shop_world)) = shop_fs"
  by code_simp

text \<open>
  Claim C6, where the code departs from it. \<^verbatim>\<open>create_project_zip\<close> and
  \<^verbatim>\<open>create_final_zip_from_temp\<close> return \<^verbatim>\<open>with_suffix(".zip")\<close> of the base name, which cuts
  the name at its last dot. For the project \<^verbatim>\<open>example.com\<close> the paths returned are
  \<^verbatim>\<open>/srv/example.zip\<close> and \<^verbatim>\<open>/srv/example.com/example.zip\<close>, not the files written. With files
  of these names on disk the run returns normally: the one upload is of \<^verbatim>\<open>example.zip\<close>, and
  the project-tree archive and the final bundle are still on disk afterwards.
\<close>

theorem dotted_project_name_uploads_wrong_file:
  "fst (backup_project sample_env [''srv'', ''example.com''] ''remote'' ''backups/shop'' 4
     dotted_world) = Returned [''srv'', ''example.com'', ''example.zip''] \<and>
   filter (\<lambda>ev. is_upload (fst ev))
     (trace (snd (backup_project sample_env [''srv'', ''example.com''] ''remote''
        ''backups/shop'' 4 dotted_world))) =
     [(RcloneCopy [''srv'', ''example.com'', ''example.zip''] ''remote:backups/shop'', None)] \<and>
   is_file (fs (snd (backup_project sample_env [''srv'', ''example.com''] ''remote''
        ''backups/shop'' 4 dotted_world)))
     [''srv'', ''example.com-project-20240107-030000.zip''] \<and>
   is_file (fs (snd (backup_project sample_env [''srv'', ''example.com''] ''remote''
        ''backups/shop'' 4 dotted_world)))
     [''srv'', ''example.com'', ''example.com-20240107-030000.zip'']"
  by code_simp

text \<open>
  A run of the project \<^verbatim>\<open>shop\<close> in which the export of the second volume fails: the
  staging directory holds the project-tree archive and the archive of the first volume.
\<close>

lemma shop_export_failure_keeps_staging:
  "fst (backup_project export_fails [''srv'', ''shop''] ''remote'' ''backups/shop'' 4
     shop_world) = Raised RuntimeError \<and>
   length (filter (\<lambda>ev. is_compose_down (fst ev))
     (trace (snd (backup_project export_fails [''srv'', ''shop''] ''remote'' ''backups/shop'' 4
        shop_world)))) = 1 \<and>
   filter (\<lambda>ev. is_compose_up (fst ev))
     (trace (snd (backup_project export_fails [''srv'', ''shop''] ''remote'' ''backups/shop'' 4
        shop_world))) = [] \<and>
   set (fs_under [''srv'', ''shop'', ''.docker-backup-temp-20240107-030000'']
     (fs (snd (backup_project export_fails [''srv'', ''shop''] ''remote'' ''backups/shop'' 4
        shop_world)))) =
     {[''srv'', ''shop'', ''.docker-backup-temp-20240107-030000''],
      [''srv'', ''shop'', ''.docker-backup-temp-20240107-030000'',
       ''shop-project-20240107-030000.zip''],
      [''srv'', ''shop'', ''.docker-backup-temp-20240107-030000'',
       ''volume-data-20240107-030000.tar.gz'']}"
  by code_simp

text \<open>
  Claim C7, where the code departs from it, by the same use of \<^verbatim>\<open>with_suffix\<close>. For the
  project \<^verbatim>\<open>example.com\<close>, with a file \<^verbatim>\<open>/srv/example.zip\<close> on disk, the export of the second
  volume fails: the services were stopped once and not started again, the staging directory
  holds the archive of the first volume and the file \<^verbatim>\<open>example.zip\<close> that was moved in, and
  the project-tree archive is not in it: it is still in \<^verbatim>\<open>/srv\<close>.
\<close>

theorem dotted_project_name_staging_misses_tree_archive:
  "fst (backup_project export_fails [''srv'', ''example.com''] ''remote'' ''backups/shop'' 4
     dotted_world) = Raised RuntimeError \<and>
   length (filter (\<lambda>ev. is_compose_down (fst ev))
     (trace (snd (backup_project export_fails [''srv'', ''example.com''] ''remote''
        ''backups/shop'' 4 dotted_world)))) = 1 \<and>
   filter (\<lambda>ev. is_compose_up (fst ev))
     (trace (snd (backup_project export_fails [''srv'', ''example.com''] ''remote''
        ''backups/shop'' 4 dotted_world))) = [] \<and>
   set (fs_under [''srv'', ''example.com'', ''.docker-backup-temp-20240107-030000'']
     (fs (snd (backup_project export_fails [''srv'', ''example.com''] ''remote''
        ''backups/shop'' 4 dotted_world)))) =
     {[''srv'', ''example.com'', ''.docker-backup-temp-20240107-030000''],
      [''srv'', ''example.com'', ''.docker-backup-temp-20240107-030000'', ''example.zip''],
      [''srv'', ''example.com'', ''.docker-backup-temp-20240107-030000'',
       ''volume-data-20240107-030000.tar.gz'']} \<and>
   is_file (fs (snd (backup_project export_fails [''srv'', ''example.com''] ''remote''
        ''backups/shop'' 4 dotted_world)))
     [''srv'', ''example.com-project-20240107-030000.zip'']"
  by code_simp

end
